theory Spec2Isabelle
  imports Main
begin

section \<open>PopupState: the delayed-intent state machine (popup-state.ts)\<close>

text \<open>
  \<^verbatim>\<open>PopupState\<close> keeps the flag \<^verbatim>\<open>opened\<close>, two pending-intent flags and two
  references to \<^verbatim>\<open>Timeout\<close> objects. The class \<^verbatim>\<open>Timeout\<close> comes from the library
  \<^verbatim>\<open>@pucelle/ff\<close>; the objects a PopupState has created are kept in a heap
  (a list indexed by address), because \<^verbatim>\<open>willNotShow\<close> cancels a timeout without
  dropping the reference to it.

  Delays are JavaScript numbers; they are modelled as integers (milliseconds). The
  only thing the code does with a delay is the test \<^verbatim>\<open>delay > 0\<close> and handing it
  to the timer.
\<close>

datatype callback = ShowCallback | HideCallback

datatype timer_status = Scheduled | Fired | Canceled

text \<open>
  Modelled from the spec: the class \<^verbatim>\<open>Timeout\<close> of @pucelle/ff is missing. The spec
  calls it a scheduled-callback primitive with \<^verbatim>\<open>cancel()\<close>: creating one schedules
  its callback after \<^verbatim>\<open>ms\<close> milliseconds, \<^verbatim>\<open>cancel()\<close> withdraws a callback that is
  still scheduled. The two closures the code passes are told apart by \<open>callback\<close>.
\<close>

record Timeout =
  callback :: callback
  ms :: int
  status :: timer_status

record PopupState =
  opened :: bool
  willShowSoon :: bool
  willHideSoon :: bool
  showTimeout :: "nat option"
  hideTimeout :: "nat option"
  timeouts :: "Timeout list"

datatype state_event = DoShow | DoHide

definition new_PopupState :: PopupState where
  "new_PopupState =
     \<lparr>opened = False, willShowSoon = False, willHideSoon = False,
      showTimeout = None, hideTimeout = None, timeouts = []\<rparr>"

text \<open>\<^verbatim>\<open>timeout?.cancel()\<close>: nothing happens on \<^verbatim>\<open>null\<close>, and nothing on a timeout
  that has fired or was canceled before.\<close>

definition cancel :: "nat option \<Rightarrow> Timeout list \<Rightarrow> Timeout list" where
  "cancel r ts =
     (case r of
        None \<Rightarrow> ts
      | Some a \<Rightarrow>
          if a < length ts \<and> status (ts ! a) = Scheduled
          then ts[a := (ts ! a)\<lparr>status := Canceled\<rparr>]
          else ts)"

definition willNotShow :: "PopupState \<Rightarrow> PopupState" where
  "willNotShow s =
     s\<lparr>timeouts := cancel (showTimeout s) (timeouts s), willShowSoon := False\<rparr>"

definition willNotHide :: "PopupState \<Rightarrow> PopupState" where
  "willNotHide s =
     s\<lparr>timeouts := cancel (hideTimeout s) (timeouts s), hideTimeout := None,
       willHideSoon := False\<rparr>"

text \<open>
  \<^verbatim>\<open>show()\<close>, \<^verbatim>\<open>hide()\<close> and \<^verbatim>\<open>clear()\<close>. Firing an event is the last thing \<^verbatim>\<open>show\<close>
  and \<^verbatim>\<open>hide\<close> do, so the events fired are returned beside the new state and the
  owner runs its listeners on them.
\<close>

definition show_ps :: "PopupState \<Rightarrow> state_event list \<times> PopupState" where
  "show_ps s =
     (let s1 = willNotShow s; s2 = willNotHide s1
      in if \<not> opened s2 then ([DoShow], s2\<lparr>opened := True\<rparr>) else ([], s2))"

definition hide_ps :: "PopupState \<Rightarrow> state_event list \<times> PopupState" where
  "hide_ps s =
     (let s1 = willNotShow s; s2 = willNotHide s1
      in if opened s2 then ([DoHide], s2\<lparr>opened := False\<rparr>) else ([], s2))"

definition clear_ps :: "PopupState \<Rightarrow> PopupState" where
  "clear_ps s = (willNotHide (willNotShow s))\<lparr>opened := False\<rparr>"

definition newTimeout :: "callback \<Rightarrow> int \<Rightarrow> Timeout" where
  "newTimeout c d = \<lparr>callback = c, ms = d, status = Scheduled\<rparr>"

definition willShow :: "int \<Rightarrow> PopupState \<Rightarrow> bool \<times> state_event list \<times> PopupState" where
  "willShow showDelay s =
     (if opened s \<or> willShowSoon s then (False, [], s)
      else if showDelay > 0 then
        (True, [],
         s\<lparr>showTimeout := Some (length (timeouts s)),
           timeouts := timeouts s @ [newTimeout ShowCallback showDelay],
           willShowSoon := True\<rparr>)
      else (let (evs, s') = show_ps s in (True, evs, s')))"

definition willHide :: "int \<Rightarrow> PopupState \<Rightarrow> bool \<times> state_event list \<times> PopupState" where
  "willHide hideDelay s =
     (if \<not> opened s \<or> willHideSoon s then (False, [], s)
      else if hideDelay > 0 then
        (True, [],
         s\<lparr>hideTimeout := Some (length (timeouts s)),
           timeouts := timeouts s @ [newTimeout HideCallback hideDelay],
           willHideSoon := True\<rparr>)
      else (let (evs, s') = hide_ps s in (True, evs, s')))"

text \<open>
  The environment lets a scheduled timeout elapse: its callback runs. The show
  callback is \<^verbatim>\<open>this.showTimeout = null; this.show()\<close>, the hide callback is
  \<^verbatim>\<open>this.hide()\<close>. A timeout that is not scheduled never fires.
\<close>

definition timeoutFires :: "nat \<Rightarrow> PopupState \<Rightarrow> state_event list \<times> PopupState" where
  "timeoutFires a s =
     (if a < length (timeouts s) \<and> status (timeouts s ! a) = Scheduled then
        (let t = timeouts s ! a;
             s1 = s\<lparr>timeouts := (timeouts s)[a := t\<lparr>status := Fired\<rparr>]\<rparr>
         in case callback t of
              ShowCallback \<Rightarrow> show_ps (s1\<lparr>showTimeout := None\<rparr>)
            | HideCallback \<Rightarrow> hide_ps s1)
      else ([], s))"

text \<open>Sequences of calls on one PopupState, with the timer firings between them.\<close>

datatype state_call =
    WillShow int | WillNotShow | WillHide int | WillNotHide
  | Show | Hide | Clear | TimeoutFires nat

fun call_ps :: "state_call \<Rightarrow> PopupState \<Rightarrow> state_event list \<times> PopupState" where
  "call_ps (WillShow d) s = snd (willShow d s)"
| "call_ps WillNotShow s = ([], willNotShow s)"
| "call_ps (WillHide d) s = snd (willHide d s)"
| "call_ps WillNotHide s = ([], willNotHide s)"
| "call_ps Show s = show_ps s"
| "call_ps Hide s = hide_ps s"
| "call_ps Clear s = ([], clear_ps s)"
| "call_ps (TimeoutFires a) s = timeoutFires a s"

fun calls_ps :: "state_call list \<Rightarrow> PopupState \<Rightarrow> state_event list \<times> PopupState" where
  "calls_ps [] s = ([], s)"
| "calls_ps (c # cs) s =
     (let (evs, s1) = call_ps c s; (evs', s2) = calls_ps cs s1 in (evs @ evs', s2))"

text \<open>The show timers that are outstanding: created, and neither fired nor canceled.\<close>

definition outstandingShow :: "PopupState \<Rightarrow> nat" where
  "outstandingShow s =
     length (filter (\<lambda>t. callback t = ShowCallback \<and> status t = Scheduled) (timeouts s))"

definition outstandingHide :: "PopupState \<Rightarrow> nat" where
  "outstandingHide s =
     length (filter (\<lambda>t. callback t = HideCallback \<and> status t = Scheduled) (timeouts s))"

fun showCall :: "state_call \<Rightarrow> bool" where
  "showCall (WillShow d) = True"
| "showCall WillNotShow = True"
| "showCall (TimeoutFires a) = True"
| "showCall c = False"


section \<open>The popup binding (popup.ts)\<close>

subsection \<open>Options\<close>

datatype TriggerType = Hover | Click | Focus | Contextmenu | NoTrigger

text \<open>Elements: the trigger element \<^verbatim>\<open>this.el\<close>, its descendants, and the root
  element \<^verbatim>\<open>popup.el\<close> of a Popup component (components are numbered).\<close>

datatype element = TriggerEl | Descendant nat | PopupEl nat

text \<open>\<^verbatim>\<open>alignTo: string | ((trigger: Element) => Element)\<close>. A function is
  represented by what it returns for the trigger element (\<open>None\<close>: nullish).\<close>

datatype alignTo = Selector string | Function "element option"

datatype TransitionResult = Fade | OtherTransition nat

text \<open>\<^verbatim>\<open>AlignerOptions\<close> is declared in @pucelle/ff; these are the fields popup.ts
  reads and writes. \<^verbatim>\<open>PopupOptions extends AlignerOptions\<close>.\<close>

record AlignerOptions =
  gap :: int
  stickToEdges :: bool
  canSwapPosition :: bool
  canShrinkOnY :: bool
  fixTriangle :: bool
  triangle :: "element option"

record PopupOptions = AlignerOptions +
  key :: "string option"
  trigger :: TriggerType
  alignTo :: "alignTo option"
  alignPosition :: string
  showDelay :: int
  hideDelay :: int
  transition :: "TransitionResult option"
  showImmediately :: bool
  autoFocus :: bool
  pointable :: bool
  cacheable :: bool
  keepVisible :: bool

definition DefaultPopupOptions :: PopupOptions where
  "DefaultPopupOptions =
     \<lparr>gap = 4, stickToEdges = True, canSwapPosition = True, canShrinkOnY = True,
      fixTriangle = False, triangle = None,
      key = None, trigger = Hover, alignTo = None, alignPosition = ''b'',
      showDelay = 100, hideDelay = 200, transition = Some Fade,
      showImmediately = False, autoFocus = False, pointable = True,
      cacheable = False, keepVisible = False\<rparr>"

text \<open>
  \<^verbatim>\<open>Partial<PopupOptions>\<close>: an object literal is the list of its properties, and
  \<^verbatim>\<open>{...DefaultPopupOptions, ...options}\<close> assigns them in order over the defaults.
  The optional properties (\<^verbatim>\<open>key\<close>, \<^verbatim>\<open>alignTo\<close>, \<^verbatim>\<open>transition\<close>, \<^verbatim>\<open>triangle\<close>) can be
  given as \<^verbatim>\<open>undefined\<close>.
\<close>

datatype property =
    Gap int | StickToEdges bool | CanSwapPosition bool | CanShrinkOnY bool
  | FixTriangle bool | Triangle "element option"
  | Key "string option" | Trigger TriggerType | AlignTo "alignTo option"
  | AlignPosition string | ShowDelay int | HideDelay int
  | TransitionOf "TransitionResult option" | ShowImmediately bool | AutoFocus bool
  | Pointable bool | Cacheable bool | KeepVisible bool

fun assign :: "property \<Rightarrow> PopupOptions \<Rightarrow> PopupOptions" where
  "assign (Gap v) opts = opts\<lparr>gap := v\<rparr>"
| "assign (StickToEdges v) opts = opts\<lparr>stickToEdges := v\<rparr>"
| "assign (CanSwapPosition v) opts = opts\<lparr>canSwapPosition := v\<rparr>"
| "assign (CanShrinkOnY v) opts = opts\<lparr>canShrinkOnY := v\<rparr>"
| "assign (FixTriangle v) opts = opts\<lparr>fixTriangle := v\<rparr>"
| "assign (Triangle v) opts = opts\<lparr>triangle := v\<rparr>"
| "assign (Key v) opts = opts\<lparr>key := v\<rparr>"
| "assign (Trigger v) opts = opts\<lparr>trigger := v\<rparr>"
| "assign (AlignTo v) opts = opts\<lparr>alignTo := v\<rparr>"
| "assign (AlignPosition v) opts = opts\<lparr>alignPosition := v\<rparr>"
| "assign (ShowDelay v) opts = opts\<lparr>showDelay := v\<rparr>"
| "assign (HideDelay v) opts = opts\<lparr>hideDelay := v\<rparr>"
| "assign (TransitionOf v) opts = opts\<lparr>transition := v\<rparr>"
| "assign (ShowImmediately v) opts = opts\<lparr>showImmediately := v\<rparr>"
| "assign (AutoFocus v) opts = opts\<lparr>autoFocus := v\<rparr>"
| "assign (Pointable v) opts = opts\<lparr>pointable := v\<rparr>"
| "assign (Cacheable v) opts = opts\<lparr>cacheable := v\<rparr>"
| "assign (KeepVisible v) opts = opts\<lparr>keepVisible := v\<rparr>"

definition spread :: "PopupOptions \<Rightarrow> property list \<Rightarrow> PopupOptions" where
  "spread base props = fold assign props base"

text \<open>\<^verbatim>\<open>this.options.key\<close> used as a condition: a string is truthy when it is
  defined and not empty.\<close>

definition truthyKey :: "PopupOptions \<Rightarrow> string option" where
  "truthyKey opts = (case key opts of None \<Rightarrow> None | Some k \<Rightarrow> if k = [] then None else Some k)"

subsection \<open>The binding and what surrounds it\<close>

datatype error = ConfigError | TypeError

datatype 'a result = Returned 'a | Thrown error

text \<open>A renderer is represented by what \<^verbatim>\<open>Popup.from\<close> finds at the first element
  child of its output: a Popup component, or nothing.\<close>

datatype renderer = Renderer (rootPopup: "nat option")

record Aligner =
  content :: element
  anchor :: element
  position :: string
  alignerOptions :: AlignerOptions

datatype unwatch = Noop | UnwatchFn

datatype caller = ByDoingShowPopup | ByUpdate

text \<open>The suspended \<^verbatim>\<open>async\<close> functions: \<^verbatim>\<open>updatePopup\<close> at \<^verbatim>\<open>await untilComplete()\<close>
  and \<^verbatim>\<open>doingHidePopup\<close> at \<^verbatim>\<open>await this.transition.leave(...)\<close>.\<close>

datatype task = RenderWait caller | LeaveWait

datatype user = ThisBinding | OtherBinding nat

text \<open>What the DOM knows of the root element of a Popup component.\<close>

record popup_el =
  connected :: bool
  ownerDocument :: bool
  pointerEvents :: string
  tabIndex :: int
  triangleEl :: "element option"

text \<open>Every call that reaches a collaborator, in the order the code makes it.\<close>

datatype effect =
    SetTriggerType TriggerType | BindEnter | BindLeaveBeforeShow
  | BindLeave int element | UnbindLeave
  | Remove nat | SetBinding nat | ApplyAppendTo nat | SetPointerEvents nat string
  | FocusEl nat
  | OpenedChange bool | WillAlign
  | SharedAdd string nat nat | SharedSetUser nat | SharedClearUser nat
  | Leave TransitionResult | Enter TransitionResult
  | Watch | CallUnwatch unwatch
  | Render "renderer option" | NewAligner | Align | UntilComplete
  | Uncaught error

text \<open>
  The fields of the class \<^verbatim>\<open>popup\<close> (down to \<open>preventedHiding\<close>), and below them
  the state of its collaborators:
  \<^item> \<open>boundTrigger\<close> is the field \<^verbatim>\<open>trigger\<close> of the PopupTriggerBinder the binding
    owns;
  \<^item> \<open>popups\<close> is the DOM state of each Popup component's root element;
  \<^item> \<open>renders\<close> is the heap of render results, each holding its current renderer
    (\<open>rendered\<close> and the shared cache hold addresses, since a render result is shared);
  \<^item> \<open>cache\<close> and \<open>users\<close> are the SharedPopups registry, \<open>isCacheOpened\<close> its
    answer for a key (it depends on the other bindings);
  \<^item> \<open>querySelector\<close>, \<open>alignResult\<close> and \<open>triggerInViewport\<close> are the answers of
    \<^verbatim>\<open>this.el.querySelector\<close>, of \<^verbatim>\<open>aligner.align()\<close> and of
    \<^verbatim>\<open>DOMUtils.isRectIntersectWithViewport(this.el.getBoundingClientRect())\<close> at this
    moment;
  \<^item> \<open>tasks\<close> are the suspended async calls, \<open>trace\<close> the calls made so far.
\<close>

record world =
  state :: PopupState
  options :: PopupOptions
  renderer :: "renderer option"
  unwatchRect :: unwatch
  rendered :: "nat option"
  popup :: "nat option"
  aligner :: "Aligner option"
  preventedHiding :: bool
  boundTrigger :: TriggerType
  popups :: "nat \<Rightarrow> popup_el"
  renders :: "renderer option list"
  cache :: "string \<Rightarrow> (nat \<times> nat) option"
  users :: "nat \<Rightarrow> user option"
  isCacheOpened :: "string \<Rightarrow> bool"
  querySelector :: "string \<Rightarrow> element option"
  alignResult :: bool
  triggerInViewport :: bool
  tasks :: "task list"
  trace :: "effect list"

definition log :: "effect \<Rightarrow> world \<Rightarrow> world" where
  "log e w = w\<lparr>trace := trace w @ [e]\<rparr>"


subsection \<open>Collaborators\<close>

text \<open>
  Modelled from the spec: the class \<^verbatim>\<open>PopupTriggerBinder\<close>
  (a helper module under popup-helpers) is missing. Of its state only the trigger
  type is read by popup.ts; binding and unbinding listeners are recorded as calls.
\<close>

definition setTriggerType :: "TriggerType \<Rightarrow> world \<Rightarrow> world" where
  "setTriggerType t w = log (SetTriggerType t) (w\<lparr>boundTrigger := t\<rparr>)"

definition bindEnter :: "world \<Rightarrow> world" where
  "bindEnter w = log BindEnter w"

definition bindLeaveBeforeShow :: "world \<Rightarrow> world" where
  "bindLeaveBeforeShow w = log BindLeaveBeforeShow w"

definition bindLeave :: "int \<Rightarrow> element \<Rightarrow> world \<Rightarrow> world" where
  "bindLeave d e w = log (BindLeave d e) w"

definition unbindLeave :: "world \<Rightarrow> world" where
  "unbindLeave w = log UnbindLeave w"

text \<open>
  Modelled from the spec: the component \<^verbatim>\<open>Popup\<close> (components/popup.ts) is missing.
  \<^verbatim>\<open>remove()\<close> takes the popup node out of the document, \<^verbatim>\<open>applyAppendTo()\<close> appends
  it to the document, \<^verbatim>\<open>setBinding\<close> stores a back-reference, and \<^verbatim>\<open>Popup.from\<close>
  finds the component of an element, if it is one.
\<close>

definition remove_popup :: "nat \<Rightarrow> world \<Rightarrow> world" where
  "remove_popup p w =
     log (Remove p) (w\<lparr>popups := (popups w)(p := (popups w p)\<lparr>connected := False\<rparr>)\<rparr>)"

definition applyAppendTo :: "nat \<Rightarrow> world \<Rightarrow> world" where
  "applyAppendTo p w =
     log (ApplyAppendTo p) (w\<lparr>popups := (popups w)(p := (popups w p)\<lparr>connected := True\<rparr>)\<rparr>)"

definition setBinding :: "nat \<Rightarrow> world \<Rightarrow> world" where
  "setBinding p w = log (SetBinding p) w"

text \<open>\<^verbatim>\<open>Popup.from(rendered.el.firstElementChild)\<close> for the render result at
  address \<open>r\<close>: what its current renderer puts there.\<close>

definition Popup_from :: "nat \<Rightarrow> world \<Rightarrow> nat option" where
  "Popup_from r w =
     (if r < length (renders w)
      then (case renders w ! r of None \<Rightarrow> None | Some f \<Rightarrow> rootPopup f)
      else None)"

text \<open>\<^verbatim>\<open>popup.el.style.pointerEvents = v\<close>.\<close>

definition setPointerEvents :: "nat \<Rightarrow> string \<Rightarrow> world \<Rightarrow> world" where
  "setPointerEvents p v w =
     log (SetPointerEvents p v) (w\<lparr>popups := (popups w)(p := (popups w p)\<lparr>pointerEvents := v\<rparr>)\<rparr>)"

text \<open>\<^verbatim>\<open>render(renderer)\<close> of @pucelle/lupos.js allocates a render result.\<close>

definition render :: "renderer option \<Rightarrow> world \<Rightarrow> nat \<times> world" where
  "render f w = (length (renders w), log (Render f) (w\<lparr>renders := renders w @ [f]\<rparr>))"

text \<open>
  Modelled from the spec: the registry \<^verbatim>\<open>SharedPopups\<close>
  (popup-helpers/shared-popups.ts) is missing. \<^verbatim>\<open>find(key)\<close> gives the entry of a
  key; \<^verbatim>\<open>add\<close> inserts or replaces the entry, and the content of an evicted entry
  leaves the document when no binding uses it any more; \<^verbatim>\<open>setUser\<close> and
  \<^verbatim>\<open>clearUser\<close> manage the back-reference.
\<close>

definition SharedPopups_find :: "string \<Rightarrow> world \<Rightarrow> (nat \<times> nat) option" where
  "SharedPopups_find k w = cache w k"

definition SharedPopups_add :: "string \<Rightarrow> nat \<Rightarrow> nat \<Rightarrow> world \<Rightarrow> world" where
  "SharedPopups_add k p r w =
     (let w1 = (case cache w k of
                  None \<Rightarrow> w
                | Some (p0, r0) \<Rightarrow>
                    if p0 \<noteq> p \<and> users w p0 = None
                    then w\<lparr>popups := (popups w)(p0 := (popups w p0)\<lparr>connected := False\<rparr>)\<rparr>
                    else w)
      in log (SharedAdd k p r) (w1\<lparr>cache := (cache w1)(k := Some (p, r))\<rparr>))"

definition SharedPopups_setUser :: "nat \<Rightarrow> world \<Rightarrow> world" where
  "SharedPopups_setUser p w = log (SharedSetUser p) (w\<lparr>users := (users w)(p := Some ThisBinding)\<rparr>)"

definition SharedPopups_clearUser :: "nat \<Rightarrow> world \<Rightarrow> world" where
  "SharedPopups_clearUser p w = log (SharedClearUser p) (w\<lparr>users := (users w)(p := None)\<rparr>)"

text \<open>\<^verbatim>\<open>this.unwatchRect()\<close>: the field holds \<^verbatim>\<open>noop\<close> or the function
  \<^verbatim>\<open>LayoutWatcher.watch\<close> returned.\<close>

definition callUnwatchRect :: "world \<Rightarrow> world" where
  "callUnwatchRect w = log (CallUnwatch (unwatchRect w)) w"

subsection \<open>The hide sequence\<close>

text \<open>
  \<^verbatim>\<open>doingHidePopup\<close> is \<^verbatim>\<open>async\<close>. With a transition configured it calls
  \<^verbatim>\<open>transition.leave\<close> and is suspended; \<open>doingHidePopup_resume\<close> is the rest of its
  body, run with the value the promise resolved to. Without a transition the whole
  body runs at once.
\<close>

definition doingHidePopup_end :: "world \<Rightarrow> world" where
  "doingHidePopup_end w =
     (let w1 = unbindLeave w;
          w2 = callUnwatchRect w1
      in w2\<lparr>preventedHiding := False\<rparr>)"

definition doingHidePopup :: "world \<Rightarrow> world" where
  "doingHidePopup w =
     (case transition (options w) of
        Some t \<Rightarrow> (log (Leave t) w)\<lparr>tasks := tasks w @ [LeaveWait]\<rparr>
      | None \<Rightarrow> doingHidePopup_end w)"

definition doingHidePopup_resume :: "bool \<Rightarrow> world \<Rightarrow> world" where
  "doingHidePopup_resume finish w =
     (let w1 = (if finish
                then (case popup w of Some p \<Rightarrow> remove_popup p w | None \<Rightarrow> w)
                else w)
      in if opened (state w1) then w1 else doingHidePopup_end w1)"

definition doHidePopup :: "world \<Rightarrow> world" where
  "doHidePopup w = log (OpenedChange False) (doingHidePopup w)"

subsection \<open>The show sequence, up to the wait for the rendering pipeline\<close>

definition updateRenderedProperty :: "world \<Rightarrow> world" where
  "updateRenderedProperty w =
     (let w1 = (case rendered w of
                  Some r \<Rightarrow> w\<lparr>renders := (renders w)[r := renderer w]\<rparr>
                | None \<Rightarrow> w);
          w2 = (case rendered w1 of
                  Some r \<Rightarrow> w1
                | None \<Rightarrow>
                    (case (case truthyKey (options w1) of
                             Some k \<Rightarrow> SharedPopups_find k w1
                           | None \<Rightarrow> None) of
                       Some (p, r) \<Rightarrow> w1\<lparr>rendered := Some r, popup := Some p\<rparr>
                     | None \<Rightarrow> w1))
      in case rendered w2 of
           Some r \<Rightarrow> w2
         | None \<Rightarrow> (let (r, w3) = render (renderer w2) w2 in w3\<lparr>rendered := Some r\<rparr>))"

definition updatePopup :: "caller \<Rightarrow> world \<Rightarrow> world" where
  "updatePopup c w =
     (let w1 = updateRenderedProperty w;
          w2 = log UntilComplete w1
      in w2\<lparr>tasks := tasks w2 @ [RenderWait c]\<rparr>)"

definition doingShowPopup :: "world \<Rightarrow> world" where
  "doingShowPopup w = updatePopup ByDoingShowPopup w"

definition doShowPopup :: "world \<Rightarrow> world" where
  "doShowPopup w = log (OpenedChange True) (doingShowPopup w)"

text \<open>The listeners \<^verbatim>\<open>initEvents\<close> registers on the PopupState, and the methods of
  the PopupState called through the binding.\<close>

fun fire :: "state_event \<Rightarrow> world \<Rightarrow> world" where
  "fire DoShow w = doShowPopup w"
| "fire DoHide w = doHidePopup w"

definition state_show :: "world \<Rightarrow> world" where
  "state_show w = (let (evs, s') = show_ps (state w) in fold fire evs (w\<lparr>state := s'\<rparr>))"

definition state_hide :: "world \<Rightarrow> world" where
  "state_hide w = (let (evs, s') = hide_ps (state w) in fold fire evs (w\<lparr>state := s'\<rparr>))"

definition state_willShow :: "int \<Rightarrow> world \<Rightarrow> bool \<times> world" where
  "state_willShow d w =
     (let (r, evs, s') = willShow d (state w) in (r, fold fire evs (w\<lparr>state := s'\<rparr>)))"

definition state_willHide :: "int \<Rightarrow> world \<Rightarrow> bool \<times> world" where
  "state_willHide d w =
     (let (r, evs, s') = willHide d (state w) in (r, fold fire evs (w\<lparr>state := s'\<rparr>)))"

definition state_timeoutFires :: "nat \<Rightarrow> world \<Rightarrow> world" where
  "state_timeoutFires a w =
     (let (evs, s') = timeoutFires a (state w) in fold fire evs (w\<lparr>state := s'\<rparr>))"

definition showPopup :: "world \<Rightarrow> world" where
  "showPopup w = state_show w"

definition hidePopup :: "world \<Rightarrow> world" where
  "hidePopup w = state_hide w"

definition showPopupLater :: "world \<Rightarrow> world" where
  "showPopupLater w =
     (let showDelay0 = showDelay (options w);
          showDelay1 = (case truthyKey (options w) of
                          Some k \<Rightarrow> if isCacheOpened w k then 0 else showDelay0
                        | None \<Rightarrow> showDelay0);
          showDelay2 = (if boundTrigger w = Click \<or> boundTrigger w = Focus
                        then 0 else showDelay1);
          (willShow, w1) = state_willShow showDelay2 w
      in if willShow then bindLeaveBeforeShow w1 else w1)"

definition hidePopupLater :: "world \<Rightarrow> world" where
  "hidePopupLater w =
     (let hideDelay0 = hideDelay (options w)
      in snd (state_willHide hideDelay0 w))"


subsection \<open>Alignment\<close>

definition getAlignToElement :: "world \<Rightarrow> element" where
  "getAlignToElement w =
     (case alignTo (options w) of
        None \<Rightarrow> TriggerEl
      | Some (Function res) \<Rightarrow> (case res of Some e \<Rightarrow> e | None \<Rightarrow> TriggerEl)
      | Some (Selector sel) \<Rightarrow>
          if sel = [] then TriggerEl
          else (case querySelector w sel of Some e \<Rightarrow> e | None \<Rightarrow> TriggerEl))"

text \<open>\<^verbatim>\<open>this.popup!.el\<close> throws a TypeError when \<^verbatim>\<open>this.popup\<close> is \<^verbatim>\<open>null\<close>.\<close>

definition getAlignerOptions :: "world \<Rightarrow> AlignerOptions result" where
  "getAlignerOptions w =
     (case popup w of
        None \<Rightarrow> Thrown TypeError
      | Some p \<Rightarrow>
          Returned
            \<lparr>gap = gap (options w),
             stickToEdges = stickToEdges (options w),
             canSwapPosition = stickToEdges (options w),
             canShrinkOnY = canShrinkOnY (options w),
             fixTriangle = fixTriangle (options w),
             triangle = triangleEl (popups w p)\<rparr>)"

definition alignPopup :: "world \<Rightarrow> bool result \<times> world" where
  "alignPopup w =
     (if \<not> opened (state w) then (Returned False, w)
      else
        (let w1 = log WillAlign w;
             alignTo0 = getAlignToElement w1
         in case popup w1 of
              None \<Rightarrow> (Thrown TypeError, w1)
            | Some p \<Rightarrow>
                (case (if (case aligner w1 of
                             None \<Rightarrow> True
                           | Some a \<Rightarrow> anchor a \<noteq> alignTo0 \<or> content a \<noteq> PopupEl p)
                       then (case getAlignerOptions w1 of
                               Thrown e \<Rightarrow> Thrown e
                             | Returned ao \<Rightarrow>
                                 Returned (log NewAligner
                                   (w1\<lparr>aligner := Some \<lparr>content = PopupEl p, anchor = alignTo0,
                                      position = alignPosition (options w1),
                                      alignerOptions = ao\<rparr>\<rparr>)))
                       else Returned w1) of
                   Thrown e \<Rightarrow> (Thrown e, w1)
                 | Returned w2 \<Rightarrow>
                     (let w3 = log Align w2;
                          aligned = alignResult w3;
                          w4 = (if \<not> aligned then hidePopup w3 else w3)
                      in (Returned aligned, w4)))))"

definition mayGetFocus :: "world \<Rightarrow> unit result \<times> world" where
  "mayGetFocus w =
     (let trigger0 = boundTrigger w
      in case popup w of
           None \<Rightarrow> (Thrown TypeError, w)
         | Some p \<Rightarrow>
             if autoFocus (options w) \<and> (trigger0 \<noteq> Hover \<and> trigger0 \<noteq> Focus)
                \<and> tabIndex (popups w p) \<ge> 0
             then (Returned (), log (FocusEl p) w)
             else (Returned (), w))"

subsection \<open>The show sequence, after the wait\<close>

definition updatePopupProperty :: "nat \<Rightarrow> world \<Rightarrow> world" where
  "updatePopupProperty p w =
     (let w1 = setBinding p w;
          w2 = bindLeave (hideDelay (options w1)) (PopupEl p) w1
      in w2\<lparr>popup := Some p\<rparr>)"

definition appendPopup :: "world \<Rightarrow> unit result \<times> world" where
  "appendPopup w =
     (case popup w of
        None \<Rightarrow> (Thrown TypeError, w)
      | Some p \<Rightarrow>
          (let inDomAlready = ownerDocument (popups w p);
               w1 = applyAppendTo p w
           in case alignPopup w1 of
                (Thrown e, w2) \<Rightarrow> (Thrown e, w2)
              | (Returned aligned, w2) \<Rightarrow>
                  if \<not> aligned then (Returned (), w2)
                  else
                    (case mayGetFocus w2 of
                       (Thrown e, w3) \<Rightarrow> (Thrown e, w3)
                     | (Returned u, w3) \<Rightarrow>
                         (let w4 = (case transition (options w3) of
                                      Some t \<Rightarrow> if \<not> inDomAlready then log (Enter t) w3 else w3
                                    | None \<Rightarrow> w3);
                              w5 = log Watch w4
                          in (Returned (), w5\<lparr>unwatchRect := UnwatchFn\<rparr>)))))"

text \<open>
  \<open>updatePopup_resume\<close> is the body of \<^verbatim>\<open>updatePopup\<close> after
  \<^verbatim>\<open>await untilComplete()\<close>. \<^verbatim>\<open>this.rendered\<close> is not assigned between its two
  reads there, so the address read first is the one handed to \<^verbatim>\<open>SharedPopups.add\<close>.
\<close>

definition updatePopup_resume :: "world \<Rightarrow> unit result \<times> world" where
  "updatePopup_resume w =
     (if \<not> opened (state w) then (Returned (), w)
      else
        (case rendered w of
           None \<Rightarrow> (Thrown TypeError, w)
         | Some r \<Rightarrow>
             (case Popup_from r w of
                None \<Rightarrow> (Thrown ConfigError, w)
              | Some p \<Rightarrow>
                  (let w1 = setPointerEvents p (if pointable (options w) then [] else ''none'') w;
                       w2 = (if popup w1 \<noteq> Some p then updatePopupProperty p w1 else w1)
                   in case appendPopup w2 of
                        (Thrown e, w3) \<Rightarrow> (Thrown e, w3)
                      | (Returned u, w3) \<Rightarrow>
                          (case truthyKey (options w3) of
                             Some k \<Rightarrow>
                               (Returned (), SharedPopups_setUser p (SharedPopups_add k p r w3))
                           | None \<Rightarrow> (Returned (), w3))))))"

text \<open>\<^verbatim>\<open>doingShowPopup\<close> after \<^verbatim>\<open>await this.updatePopup()\<close>: an error of
  \<^verbatim>\<open>updatePopup\<close> rejects it, otherwise it aligns.\<close>

definition doingShowPopup_resume :: "world \<Rightarrow> unit result \<times> world" where
  "doingShowPopup_resume w =
     (case updatePopup_resume w of
        (Thrown e, w1) \<Rightarrow> (Thrown e, w1)
      | (Returned u, w1) \<Rightarrow>
          (case alignPopup w1 of
             (Thrown e, w2) \<Rightarrow> (Thrown e, w2)
           | (Returned aligned, w2) \<Rightarrow> (Returned (), w2)))"

definition onTriggerRectChanged :: "world \<Rightarrow> unit result \<times> world" where
  "onTriggerRectChanged w =
     (case (if triggerInViewport w then alignPopup w else (Returned False, hidePopup w)) of
        (Thrown e, w1) \<Rightarrow> (Thrown e, w1)
      | (Returned aligned, w1) \<Rightarrow> (Returned (), w1\<lparr>unwatchRect := Noop\<rparr>))"

subsection \<open>The rest of the binding\<close>

definition update :: "renderer \<Rightarrow> property list \<Rightarrow> world \<Rightarrow> world" where
  "update f props w =
     (let w1 = w\<lparr>renderer := Some f\<rparr>;
          w2 = w1\<lparr>options := spread DefaultPopupOptions props\<rparr>;
          w3 = (if opened (state w2) then updatePopup ByUpdate w2 else w2)
      in if preventedHiding w3 \<and> \<not> keepVisible (options w3) then hidePopupLater w3 else w3)"

definition onWillShow :: "world \<Rightarrow> world" where
  "onWillShow w = showPopupLater w"

definition onWillHide :: "world \<Rightarrow> world" where
  "onWillHide w =
     (if keepVisible (options w) then w\<lparr>preventedHiding := True\<rparr> else hidePopupLater w)"

definition onCancelShow :: "world \<Rightarrow> world" where
  "onCancelShow w =
     (if opened (state w) then hidePopup w else w\<lparr>state := willNotShow (state w)\<rparr>)"

definition onImmediateHide :: "world \<Rightarrow> world" where
  "onImmediateHide w =
     (if keepVisible (options w) then w\<lparr>preventedHiding := True\<rparr> else hidePopup w)"

definition onToggleShowHide :: "world \<Rightarrow> world" where
  "onToggleShowHide w = (if opened (state w) then state_hide w else state_show w)"

definition afterConnectCallback :: "world \<Rightarrow> world" where
  "afterConnectCallback w =
     (let w1 = setTriggerType (trigger (options w)) w;
          w2 = bindEnter w1
      in if showImmediately (options w2) then showPopupLater w2 else w2)"

definition beforeDisconnectCallback :: "world \<Rightarrow> world" where
  "beforeDisconnectCallback w =
     (let w1 = (if opened (state w)
                then (case popup w of Some p \<Rightarrow> remove_popup p w | None \<Rightarrow> w)
                else w);
          w2 = w1\<lparr>state := clear_ps (state w1)\<rparr>;
          w3 = unbindLeave w2;
          w4 = callUnwatchRect w3
      in w4\<lparr>preventedHiding := False\<rparr>)"

definition canContentReuse :: "world \<Rightarrow> bool" where
  "canContentReuse w =
     (case truthyKey (options w) of
        None \<Rightarrow> False
      | Some k \<Rightarrow> if keepVisible (options w) then \<not> opened (state w) else True)"

definition clearContent :: "world \<Rightarrow> world" where
  "clearContent w =
     (let w1 = (if opened (state w)
                then (case popup w of Some p \<Rightarrow> remove_popup p w | None \<Rightarrow> w)
                else w);
          w2 = (case truthyKey (options w1) of
                  Some k \<Rightarrow> (case popup w1 of Some p \<Rightarrow> SharedPopups_clearUser p w1 | None \<Rightarrow> w1)
                | None \<Rightarrow> w1);
          w3 = unbindLeave w2;
          w4 = w3\<lparr>state := clear_ps (state w3)\<rparr>;
          w5 = callUnwatchRect w4
      in w5\<lparr>rendered := None, popup := None, aligner := None, preventedHiding := False\<rparr>)"

text \<open>The constructor: the fields as declared, for a PopupTriggerBinder whose trigger
  type is \<open>t\<close> and a page whose Popup elements are \<open>els\<close>.\<close>

definition new_popup :: "TriggerType \<Rightarrow> (nat \<Rightarrow> popup_el) \<Rightarrow> world" where
  "new_popup t els =
     \<lparr>state = new_PopupState, options = DefaultPopupOptions, renderer = None,
      unwatchRect = Noop, rendered = None, popup = None, aligner = None,
      preventedHiding = False, boundTrigger = t, popups = els, renders = [],
      cache = (\<lambda>k. None), users = (\<lambda>p. None), isCacheOpened = (\<lambda>k. False),
      querySelector = (\<lambda>sel. None), alignResult = True, triggerInViewport = True,
      tasks = [], trace = []\<rparr>"

subsection \<open>Runs\<close>

text \<open>
  What can happen to a binding, one step at a time: a call of its public methods, an
  event of the PopupTriggerBinder, a timeout elapsing, the rendering pipeline settling
  for the oldest waiting \<^verbatim>\<open>updatePopup\<close>, the oldest leave transition resolving, the
  layout watcher reporting a new rect. An error that leaves a step is recorded.

  \<^verbatim>\<open>doingShowPopup\<close> continues in the same turn in which the \<^verbatim>\<open>updatePopup\<close> it
  awaits ends. The listeners of the binding's own events \<^verbatim>\<open>opened-change\<close> and
  \<^verbatim>\<open>will-align\<close> and an \<^verbatim>\<open>alignTo\<close> function are taken not to call back into the
  binding.
\<close>

datatype action =
    CallShowPopupLater | CallShowPopup | CallHidePopupLater | CallHidePopup
  | CallUpdate renderer "property list" | Connect | Disconnect | CallClearContent
  | WillShowEvent | WillHideEvent | CancelShowEvent | ImmediateHideEvent | ToggleEvent
  | TimeoutElapsed nat | RenderSettled | LeaveResolved bool | RectChanged

fun take_task :: "(task \<Rightarrow> bool) \<Rightarrow> task list \<Rightarrow> (task \<times> task list) option" where
  "take_task P [] = None"
| "take_task P (t # ts) =
     (if P t then Some (t, ts)
      else (case take_task P ts of None \<Rightarrow> None | Some (t', ts') \<Rightarrow> Some (t', t # ts')))"

fun isRenderWait :: "task \<Rightarrow> bool" where
  "isRenderWait (RenderWait c) = True"
| "isRenderWait LeaveWait = False"

definition settle :: "unit result \<times> world \<Rightarrow> world" where
  "settle rw = (case rw of (Thrown e, w) \<Rightarrow> log (Uncaught e) w | (Returned u, w) \<Rightarrow> w)"

fun step :: "action \<Rightarrow> world \<Rightarrow> world" where
  "step CallShowPopupLater w = showPopupLater w"
| "step CallShowPopup w = showPopup w"
| "step CallHidePopupLater w = hidePopupLater w"
| "step CallHidePopup w = hidePopup w"
| "step (CallUpdate f props) w = update f props w"
| "step Connect w = afterConnectCallback w"
| "step Disconnect w = beforeDisconnectCallback w"
| "step CallClearContent w = clearContent w"
| "step WillShowEvent w = onWillShow w"
| "step WillHideEvent w = onWillHide w"
| "step CancelShowEvent w = onCancelShow w"
| "step ImmediateHideEvent w = onImmediateHide w"
| "step ToggleEvent w = onToggleShowHide w"
| "step (TimeoutElapsed a) w = state_timeoutFires a w"
| "step RenderSettled w =
     (case take_task isRenderWait (tasks w) of
        None \<Rightarrow> w
      | Some (t, ts) \<Rightarrow>
          settle (if t = RenderWait ByDoingShowPopup
                  then doingShowPopup_resume (w\<lparr>tasks := ts\<rparr>)
                  else updatePopup_resume (w\<lparr>tasks := ts\<rparr>)))"
| "step (LeaveResolved finish) w =
     (case take_task (\<lambda>t. t = LeaveWait) (tasks w) of
        None \<Rightarrow> w
      | Some (t, ts) \<Rightarrow> doingHidePopup_resume finish (w\<lparr>tasks := ts\<rparr>))"
| "step RectChanged w = settle (onTriggerRectChanged w)"

definition run :: "action list \<Rightarrow> world \<Rightarrow> world" where
  "run acts w = fold step acts w"


subsection \<open>Notions used in the statements\<close>

text \<open>The effective show delay in the words of the specification: zero if a
  same-keyed shared popup is already open, zero for the trigger types click and
  focus, else the configured delay.\<close>

definition sameKeyedPopupOpened :: "world \<Rightarrow> bool" where
  "sameKeyedPopupOpened w =
     (case key (options w) of None \<Rightarrow> False | Some k \<Rightarrow> k \<noteq> [] \<and> isCacheOpened w k)"

definition effectiveShowDelay :: "world \<Rightarrow> int" where
  "effectiveShowDelay w =
     (if sameKeyedPopupOpened w then 0
      else if boundTrigger w = Click \<or> boundTrigger w = Focus then 0
      else showDelay (options w))"

text \<open>Every scheduled show timeout is the one \<open>showTimeout\<close> refers to, and a show
  is then pending.\<close>

definition show_inv :: "PopupState \<Rightarrow> bool" where
  "show_inv s \<longleftrightarrow>
     (\<forall>a < length (timeouts s).
        callback (timeouts s ! a) = ShowCallback \<and> status (timeouts s ! a) = Scheduled
        \<longrightarrow> showTimeout s = Some a \<and> willShowSoon s)"

definition shown :: "PopupState \<Rightarrow> nat" where
  "shown s = (if opened s then 1 else 0)"

definition noHidePending :: "PopupState \<Rightarrow> bool" where
  "noHidePending s \<longleftrightarrow>
     (\<forall>t \<in> set (timeouts s). \<not> (callback t = HideCallback \<and> status t = Scheduled))"

text \<open>A page whose Popup elements are not in the document yet, and a binding on it
  that was connected, given a renderer of Popup component 0, and shown.\<close>

definition detached :: "nat \<Rightarrow> popup_el" where
  "detached p =
     \<lparr>connected = False, ownerDocument = True, pointerEvents = [], tabIndex = 0,
      triangleEl = None\<rparr>"

definition shownWorld :: world where
  "shownWorld =
     run [Connect, CallUpdate (Renderer (Some 0)) [], CallShowPopup, RenderSettled]
       (new_popup Hover detached)"

text \<open>The calls a step added to the trace, and the calls of the hide sequence up to
  its suspension (or to its end, when no transition is configured).\<close>

definition newEffects :: "world \<Rightarrow> world \<Rightarrow> effect list" where
  "newEffects w w' = drop (length (trace w)) (trace w')"

definition hideEffects :: "world \<Rightarrow> effect list" where
  "hideEffects w =
     (case transition (options w) of
        Some t \<Rightarrow> [Leave t, OpenedChange False]
      | None \<Rightarrow> [UnbindLeave, CallUnwatch (unwatchRect w), OpenedChange False])"

text \<open>
  Further bindings on the same page:
  \<^item> \<open>midWorld\<close>: the shown binding was hidden, then shown again before the leave
    transition resolved, and the rendering pipeline has settled;
  \<^item> \<open>raceWorld\<close>: after that, the leave transition has resolved as finished;
    \<open>afterRaceWorld\<close>: further show requests and a rect change have reached it;
  \<^item> \<open>plainWorld\<close>: shown with \<^verbatim>\<open>transition: undefined\<close>; \<open>unanchoredWorld\<close>: its trigger
    rect has changed and the alignment failed; \<open>outOfViewWorld\<close>: its trigger rect has
    changed and no longer intersects the viewport;
  \<^item> \<open>keptWorld\<close>: shown with \<^verbatim>\<open>keepVisible: true\<close>; \<open>deferredWorld\<close>: a will-hide event
    has reached it;
  \<^item> \<open>clickWorld\<close>: configured with \<^verbatim>\<open>trigger: 'click'\<close> and \<^verbatim>\<open>showDelay: 100\<close>, connected;
  \<^item> \<open>hiddenEarlyWorld\<close>: shown and hidden again before the rendering pipeline settled;
  \<^item> \<open>noRootWorld\<close>: shown with a renderer whose output has no Popup at its root;
  \<^item> \<open>swapWorld\<close>: shown with \<^verbatim>\<open>stickToEdges: false\<close> and \<^verbatim>\<open>canSwapPosition: true\<close>.
\<close>

definition midWorld :: world where
  "midWorld = run [CallHidePopup, CallShowPopup, RenderSettled] shownWorld"

definition raceWorld :: world where
  "raceWorld = step (LeaveResolved True) midWorld"

definition afterRaceWorld :: world where
  "afterRaceWorld = run [CallShowPopup, CallShowPopupLater, WillShowEvent, RectChanged] raceWorld"

definition plainWorld :: world where
  "plainWorld =
     run [Connect, CallUpdate (Renderer (Some 0)) [TransitionOf None], CallShowPopup, RenderSettled]
       (new_popup Hover detached)"

definition unanchoredWorld :: world where
  "unanchoredWorld = step RectChanged (plainWorld\<lparr>alignResult := False\<rparr>)"

definition outOfViewWorld :: world where
  "outOfViewWorld = step RectChanged (plainWorld\<lparr>triggerInViewport := False\<rparr>)"

definition keptWorld :: world where
  "keptWorld =
     run [Connect, CallUpdate (Renderer (Some 0)) [KeepVisible True], CallShowPopup, RenderSettled]
       (new_popup Hover detached)"

definition deferredWorld :: world where
  "deferredWorld = step WillHideEvent keptWorld"

definition clickWorld :: world where
  "clickWorld =
     run [CallUpdate (Renderer (Some 0)) [Trigger Click, ShowDelay 100], Connect]
       (new_popup Hover detached)"

definition hiddenEarlyWorld :: world where
  "hiddenEarlyWorld =
     run [Connect, CallUpdate (Renderer (Some 0)) [], CallShowPopup, CallHidePopup]
       (new_popup Hover detached)"

definition noRootWorld :: world where
  "noRootWorld =
     run [Connect, CallUpdate (Renderer None) [], CallShowPopup] (new_popup Hover detached)"

definition swapWorld :: world where
  "swapWorld =
     run [Connect, CallUpdate (Renderer (Some 0)) [StickToEdges False, CanSwapPosition True],
          CallShowPopup, RenderSettled]
       (new_popup Hover detached)"


section \<open>Properties of the PopupState\<close>

subsection \<open>Canceling timeouts\<close>

lemma cancel_length [simp]: "length (cancel r ts) = length ts"
  by (simp add: cancel_def split: option.splits)

lemma cancel_nth:
  "a < length ts \<Longrightarrow>
   cancel r ts ! a = (if r = Some a \<and> status (ts ! a) = Scheduled then (ts ! a)\<lparr>status := Canceled\<rparr> else ts ! a)"
  by (auto simp: cancel_def nth_list_update split: option.splits)

lemma cancel_callback: "a < length ts \<Longrightarrow> callback (cancel r ts ! a) = callback (ts ! a)"
  by (simp add: cancel_nth)

lemma cancel_Scheduled:
  "a < length ts \<Longrightarrow> status (cancel r ts ! a) = Scheduled \<longleftrightarrow> status (ts ! a) = Scheduled \<and> r \<noteq> Some a"
  by (auto simp add: cancel_nth)

lemma show_inv_outstanding: "show_inv s \<Longrightarrow> outstandingShow s \<le> 1"
proof -
  assume inv: "show_inv s"
  let ?P = "\<lambda>t. callback t = ShowCallback \<and> status t = Scheduled"
  let ?A = "{i. i < length (timeouts s) \<and> ?P (timeouts s ! i)}"
  have "?A \<subseteq> (case showTimeout s of None \<Rightarrow> {} | Some a \<Rightarrow> {a})"
    using inv by (auto simp: show_inv_def split: option.splits)
  moreover have "card (case showTimeout s of None \<Rightarrow> {} | Some a \<Rightarrow> {a}) \<le> 1"
    by (simp split: option.splits)
  moreover have "finite (case showTimeout s of None \<Rightarrow> {} | Some a \<Rightarrow> {a})"
    by (simp split: option.splits)
  ultimately have "card ?A \<le> 1"
    using card_mono le_trans by blast
  then show ?thesis
    by (simp add: outstandingShow_def length_filter_conv_card)
qed

lemma show_inv_new: "show_inv new_PopupState"
  by (simp add: show_inv_def new_PopupState_def)

lemma show_inv_willNotShow: "show_inv s \<Longrightarrow> show_inv (willNotShow s)"
  by (auto simp: show_inv_def willNotShow_def cancel_Scheduled cancel_callback)

lemma show_inv_willNotHide: "show_inv s \<Longrightarrow> show_inv (willNotHide s)"
  by (auto simp: show_inv_def willNotHide_def cancel_Scheduled cancel_callback)

lemma show_inv_opened: "show_inv s \<Longrightarrow> show_inv (s\<lparr>opened := b\<rparr>)"
  by (simp add: show_inv_def)

lemma show_inv_show: "show_inv s \<Longrightarrow> show_inv (snd (show_ps s))"
  by (simp add: show_ps_def Let_def show_inv_willNotShow show_inv_willNotHide show_inv_opened)

lemma show_inv_hide: "show_inv s \<Longrightarrow> show_inv (snd (hide_ps s))"
  by (simp add: hide_ps_def Let_def show_inv_willNotShow show_inv_willNotHide show_inv_opened)

lemma show_inv_clear: "show_inv s \<Longrightarrow> show_inv (clear_ps s)"
  by (simp add: clear_ps_def show_inv_willNotShow show_inv_willNotHide show_inv_opened)

lemma show_inv_willShow: "show_inv s \<Longrightarrow> show_inv (snd (snd (willShow d s)))"
proof -
  assume inv: "show_inv s"
  show ?thesis
  proof (cases "opened s \<or> willShowSoon s")
    case True
    then show ?thesis using inv by (simp add: willShow_def)
  next
    case False
    show ?thesis
    proof (cases "d > 0")
      case True
      have none: "\<And>a. a < length (timeouts s) \<Longrightarrow>
         \<not> (callback (timeouts s ! a) = ShowCallback \<and> status (timeouts s ! a) = Scheduled)"
        using inv False by (auto simp: show_inv_def)
      show ?thesis using False True none
        by (auto simp: willShow_def show_inv_def nth_append less_Suc_eq)
    next
      case F2: False
      then show ?thesis using False inv show_inv_show [of s]
        by (simp add: willShow_def split: prod.splits)
    qed
  qed
qed

lemma show_inv_willHide: "show_inv s \<Longrightarrow> show_inv (snd (snd (willHide d s)))"
proof -
  assume inv: "show_inv s"
  show ?thesis
  proof (cases "\<not> opened s \<or> willHideSoon s")
    case True
    then show ?thesis using inv by (simp add: willHide_def)
  next
    case False
    show ?thesis
    proof (cases "d > 0")
      case True
      show ?thesis using False True inv
        by (auto simp: willHide_def show_inv_def nth_append less_Suc_eq newTimeout_def)
    next
      case F2: False
      then show ?thesis using False inv show_inv_hide [of s]
        by (simp add: willHide_def split: prod.splits)
    qed
  qed
qed

lemma show_inv_timeoutFires: "show_inv s \<Longrightarrow> show_inv (snd (timeoutFires a s))"
proof -
  assume inv: "show_inv s"
  show ?thesis
  proof (cases "a < length (timeouts s) \<and> status (timeouts s ! a) = Scheduled")
    case False
    then show ?thesis using inv by (auto simp: timeoutFires_def)
  next
    case True
    let ?s1 = "s\<lparr>timeouts := (timeouts s)[a := (timeouts s ! a)\<lparr>status := Fired\<rparr>]\<rparr>"
    show ?thesis
    proof (cases "callback (timeouts s ! a)")
      case ShowCallback
      have uniq: "b = a" if "b < length (timeouts s)"
        "callback (timeouts s ! b) = ShowCallback" "status (timeouts s ! b) = Scheduled" for b
        using inv True ShowCallback that unfolding show_inv_def by (metis option.inject)
      have "show_inv (?s1\<lparr>showTimeout := None\<rparr>)"
        using uniq True by (auto simp: show_inv_def nth_list_update split: if_splits)
      then show ?thesis using True ShowCallback show_inv_show
        by (simp add: timeoutFires_def Let_def)
    next
      case HideCallback
      have "show_inv ?s1"
        using inv True HideCallback by (auto simp: show_inv_def nth_list_update)
      then show ?thesis using True HideCallback show_inv_hide
        by (simp add: timeoutFires_def Let_def)
    qed
  qed
qed

lemma show_inv_call: "show_inv s \<Longrightarrow> show_inv (snd (call_ps c s))"
  by (cases c)
     (simp_all add: show_inv_willShow show_inv_willHide show_inv_willNotShow
        show_inv_willNotHide show_inv_show show_inv_hide show_inv_clear show_inv_timeoutFires)

lemma show_inv_calls: "show_inv s \<Longrightarrow> show_inv (snd (calls_ps cs s))"
proof (induction cs arbitrary: s)
  case Nil
  then show ?case by simp
next
  case (Cons c cs)
  have "show_inv (snd (call_ps c s))" using Cons.prems by (rule show_inv_call)
  then have "show_inv (snd (calls_ps cs (snd (call_ps c s))))" by (rule Cons.IH)
  then show ?case by (simp add: split_def Let_def)
qed

subsection \<open>Counting the events\<close>

lemma opened_willNotShow [simp]: "opened (willNotShow s) = opened s"
  by (simp add: willNotShow_def)

lemma opened_willNotHide [simp]: "opened (willNotHide s) = opened s"
  by (simp add: willNotHide_def)

lemma show_ps_events: "fst (show_ps s) = (if opened s then [] else [DoShow])"
  by (simp add: show_ps_def Let_def)

lemma show_ps_opened: "opened (snd (show_ps s))"
  by (simp add: show_ps_def Let_def)

lemma hide_ps_events: "fst (hide_ps s) = (if opened s then [DoHide] else [])"
  by (simp add: hide_ps_def Let_def)

lemma hide_ps_opened: "\<not> opened (snd (hide_ps s))"
  by (simp add: hide_ps_def Let_def)

lemma shown_le: "shown s \<le> 1"
  by (simp add: shown_def)

lemma balance_show:
  "count_list (fst (show_ps s)) DoShow + shown s = shown (snd (show_ps s)) \<and>
   count_list (fst (show_ps s)) DoHide = 0"
  by (simp add: show_ps_events show_ps_opened shown_def)

lemma balance_hide:
  "count_list (fst (hide_ps s)) DoShow + shown s =
     shown (snd (hide_ps s)) + count_list (fst (hide_ps s)) DoHide"
  by (simp add: hide_ps_events hide_ps_opened shown_def)

lemma balance_call:
  "count_list (fst (call_ps c s)) DoShow + shown s
     \<le> shown (snd (call_ps c s)) + count_list (fst (call_ps c s)) DoHide
        + count_list [c] Clear"
proof (cases c)
  case (WillShow d)
  have "shown (s\<lparr>showTimeout := x, timeouts := y, willShowSoon := z\<rparr>) = shown s" for x y z
    by (simp add: shown_def)
  then show ?thesis using WillShow balance_show [of s]
    by (simp add: willShow_def split_def)
next
  case WillNotShow
  then show ?thesis by (simp add: shown_def)
next
  case (WillHide d)
  have "shown (s\<lparr>hideTimeout := x, timeouts := y, willHideSoon := z\<rparr>) = shown s" for x y z
    by (simp add: shown_def)
  then show ?thesis using WillHide balance_hide [of s]
    by (simp add: willHide_def split_def)
next
  case WillNotHide
  then show ?thesis by (simp add: shown_def)
next
  case Show
  then show ?thesis using balance_show [of s] by simp
next
  case Hide
  then show ?thesis using balance_hide [of s] by simp
next
  case Clear
  then show ?thesis by (simp add: shown_def clear_ps_def)
next
  case (TimeoutFires a)
  let ?s1 = "s\<lparr>timeouts := (timeouts s)[a := (timeouts s ! a)\<lparr>status := Fired\<rparr>]\<rparr>"
  have e: "shown (?s1\<lparr>showTimeout := None\<rparr>) = shown s" "shown ?s1 = shown s"
    by (simp_all add: shown_def)
  show ?thesis
    using TimeoutFires balance_show [of "?s1\<lparr>showTimeout := None\<rparr>"] balance_hide [of ?s1] e
    by (simp add: timeoutFires_def Let_def split: callback.splits)
qed

lemma balance_calls:
  "count_list (fst (calls_ps cs s)) DoShow + shown s
     \<le> shown (snd (calls_ps cs s)) + count_list (fst (calls_ps cs s)) DoHide
        + count_list cs Clear"
proof (induction cs arbitrary: s)
  case Nil
  then show ?case by simp
next
  case (Cons c cs)
  obtain evs s1 where c: "call_ps c s = (evs, s1)" by (cases "call_ps c s")
  obtain evs' s2 where cs: "calls_ps cs s1 = (evs', s2)" by (cases "calls_ps cs s1")
  have 1: "count_list evs DoShow + shown s \<le> shown s1 + count_list evs DoHide + count_list [c] Clear"
    using balance_call [of c s] c by simp
  have 2: "count_list evs' DoShow + shown s1 \<le> shown s2 + count_list evs' DoHide + count_list cs Clear"
    using Cons.IH [of s1] cs by simp
  show ?case using 1 2 c cs by (simp split: if_splits)
qed

lemma noHidePending_iff: "noHidePending s \<longleftrightarrow> outstandingHide s = 0"
  by (auto simp: noHidePending_def outstandingHide_def filter_empty_conv)

lemma cancel_set: "t \<in> set (cancel r ts) \<Longrightarrow> t \<in> set ts \<or> status t = Canceled"
proof (cases r)
  case None
  assume "t \<in> set (cancel r ts)"
  then show ?thesis using None by (simp add: cancel_def)
next
  case (Some a)
  assume t: "t \<in> set (cancel r ts)"
  show ?thesis
  proof (cases "a < length ts \<and> status (ts ! a) = Scheduled")
    case True
    then have "t \<in> insert ((ts ! a)\<lparr>status := Canceled\<rparr>) (set ts)"
      using t Some set_update_subset_insert [of ts a] by (auto simp: cancel_def)
    then show ?thesis by auto
  next
    case False
    then show ?thesis using t Some by (auto simp: cancel_def)
  qed
qed

lemma noHide_willNotShow: "noHidePending s \<Longrightarrow> noHidePending (willNotShow s)"
  by (auto simp: noHidePending_def willNotShow_def dest!: cancel_set)

lemma noHide_willNotHide: "noHidePending s \<Longrightarrow> noHidePending (willNotHide s)"
  by (auto simp: noHidePending_def willNotHide_def dest!: cancel_set)

lemma noHide_show: "noHidePending s \<Longrightarrow> noHidePending (snd (show_ps s))"
  using noHide_willNotHide [OF noHide_willNotShow, of s]
  by (simp add: show_ps_def Let_def noHidePending_def)

lemma noHide_showCall:
  assumes "noHidePending s" and "showCall c"
  shows "noHidePending (snd (call_ps c s)) \<and> count_list (fst (call_ps c s)) DoHide = 0"
proof (cases c)
  case (WillShow d)
  have "noHidePending (s\<lparr>showTimeout := Some (length (timeouts s)),
           timeouts := timeouts s @ [newTimeout ShowCallback d], willShowSoon := True\<rparr>)"
    using assms(1) by (auto simp: noHidePending_def newTimeout_def)
  then show ?thesis using WillShow assms(1) noHide_show [of s] balance_show [of s]
    by (simp add: willShow_def split_def)
next
  case WillNotShow
  then show ?thesis using assms(1) by (simp add: noHide_willNotShow)
next
  case (TimeoutFires a)
  show ?thesis
  proof (cases "a < length (timeouts s) \<and> status (timeouts s ! a) = Scheduled")
    case False
    then show ?thesis using TimeoutFires assms(1) by (auto simp: timeoutFires_def)
  next
    case True
    then have cb: "callback (timeouts s ! a) = ShowCallback"
      using assms(1) nth_mem [of a "timeouts s"]
      by (cases "callback (timeouts s ! a)") (auto simp: noHidePending_def)
    let ?s1 = "s\<lparr>timeouts := (timeouts s)[a := (timeouts s ! a)\<lparr>status := Fired\<rparr>],
                 showTimeout := None\<rparr>"
    have "set (timeouts ?s1) \<subseteq> insert ((timeouts s ! a)\<lparr>status := Fired\<rparr>) (set (timeouts s))"
      using set_update_subset_insert [of "timeouts s" a] by simp
    then have "noHidePending ?s1"
      using assms(1) unfolding noHidePending_def by fastforce
    then show ?thesis
      using TimeoutFires True cb noHide_show [of ?s1] balance_show [of ?s1]
      by (simp add: timeoutFires_def Let_def)
  qed
qed (use assms(2) in simp_all)

lemma noHide_showCalls:
  "noHidePending s \<Longrightarrow> \<forall>c \<in> set cs. showCall c \<Longrightarrow>
   count_list (fst (calls_ps cs s)) DoHide = 0"
proof (induction cs arbitrary: s)
  case Nil
  then show ?case by simp
next
  case (Cons c cs)
  obtain evs s1 where c: "call_ps c s = (evs, s1)" by (cases "call_ps c s")
  obtain evs' s2 where cs: "calls_ps cs s1 = (evs', s2)" by (cases "calls_ps cs s1")
  have 1: "noHidePending s1 \<and> count_list evs DoHide = 0"
    using noHide_showCall [of s c] Cons.prems c by simp
  then have "count_list evs' DoHide = 0"
    using Cons.IH [of s1] Cons.prems cs by simp
  then show ?case using 1 c cs by simp
qed

lemma showCalls_no_Clear: "\<forall>c \<in> set cs. showCall c \<Longrightarrow> count_list cs Clear = 0"
  by (induction cs) auto

subsection \<open>The contract of willShow, and the show timer\<close>

lemma cancel_outstanding:
  "length (filter (\<lambda>t. callback t = c \<and> status t = Scheduled) (cancel r ts))
     \<le> length (filter (\<lambda>t. callback t = c \<and> status t = Scheduled) ts)"
proof -
  have "{i. i < length ts \<and> callback (cancel r ts ! i) = c \<and> status (cancel r ts ! i) = Scheduled}
          \<subseteq> {i. i < length ts \<and> callback (ts ! i) = c \<and> status (ts ! i) = Scheduled}"
    by (auto simp: cancel_callback cancel_Scheduled)
  then have "card {i. i < length ts \<and> callback (cancel r ts ! i) = c \<and> status (cancel r ts ! i) = Scheduled}
          \<le> card {i. i < length ts \<and> callback (ts ! i) = c \<and> status (ts ! i) = Scheduled}"
    by (intro card_mono) auto
  then show ?thesis by (simp add: length_filter_conv_card)
qed

lemma outstandingShow_willNotShow: "outstandingShow (willNotShow s) \<le> outstandingShow s"
  using cancel_outstanding [of ShowCallback "showTimeout s" "timeouts s"]
  by (simp add: outstandingShow_def willNotShow_def)

lemma outstandingShow_willNotHide: "outstandingShow (willNotHide s) \<le> outstandingShow s"
  using cancel_outstanding [of ShowCallback "hideTimeout s" "timeouts s"]
  by (simp add: outstandingShow_def willNotHide_def)

lemma show_ps_no_timer:
  "length (timeouts (snd (show_ps s))) = length (timeouts s) \<and>
   outstandingShow (snd (show_ps s)) \<le> outstandingShow s"
proof -
  have "outstandingShow (willNotHide (willNotShow s)) \<le> outstandingShow s"
    using outstandingShow_willNotHide [of "willNotShow s"] outstandingShow_willNotShow [of s]
    by simp
  moreover have "outstandingShow (x\<lparr>opened := b\<rparr>) = outstandingShow x" for x b
    by (simp add: outstandingShow_def)
  ultimately show ?thesis
    by (simp add: show_ps_def Let_def willNotShow_def willNotHide_def)
qed

text \<open>
  C4. \<^verbatim>\<open>willShow(delay)\<close> returns \<^verbatim>\<open>false\<close>, fires no event and leaves the state and
  every timeout as they are whenever \<^verbatim>\<open>opened\<close> is true or a show is pending.
  Otherwise it returns \<^verbatim>\<open>true\<close>; with \<open>delay \<le> 0\<close> it fires \<^verbatim>\<open>do-show\<close> at once, sets
  \<^verbatim>\<open>opened\<close> and creates no timeout; with \<open>delay > 0\<close> it fires nothing, schedules
  exactly one show timeout with that delay and sets \<^verbatim>\<open>willShowSoon\<close>.
\<close>

theorem willShow_contract:
  "(opened s \<or> willShowSoon s \<longrightarrow> willShow d s = (False, [], s)) \<and>
   (\<not> opened s \<and> \<not> willShowSoon s \<and> d \<le> 0 \<longrightarrow>
      willShow d s = (True, [DoShow], (willNotHide (willNotShow s))\<lparr>opened := True\<rparr>) \<and>
      opened (snd (snd (willShow d s))) \<and>
      \<not> willShowSoon (snd (snd (willShow d s))) \<and>
      length (timeouts (snd (snd (willShow d s)))) = length (timeouts s) \<and>
      outstandingShow (snd (snd (willShow d s))) \<le> outstandingShow s) \<and>
   (\<not> opened s \<and> \<not> willShowSoon s \<and> 0 < d \<longrightarrow>
      fst (willShow d s) \<and> fst (snd (willShow d s)) = [] \<and>
      timeouts (snd (snd (willShow d s))) = timeouts s @ [newTimeout ShowCallback d] \<and>
      showTimeout (snd (snd (willShow d s))) = Some (length (timeouts s)) \<and>
      outstandingShow (snd (snd (willShow d s))) = Suc (outstandingShow s) \<and>
      willShowSoon (snd (snd (willShow d s))) \<and>
      \<not> opened (snd (snd (willShow d s))))"
proof (intro conjI impI)
  assume "opened s \<or> willShowSoon s"
  then show "willShow d s = (False, [], s)" by (auto simp: willShow_def)
next
  assume a: "\<not> opened s \<and> \<not> willShowSoon s \<and> d \<le> 0"
  then have w: "willShow d s = (True, show_ps s)"
    by (simp add: willShow_def split_def)
  show "willShow d s = (True, [DoShow], (willNotHide (willNotShow s))\<lparr>opened := True\<rparr>)"
    using a w by (simp add: show_ps_def Let_def)
  show "opened (snd (snd (willShow d s)))" using w by (simp add: show_ps_opened)
  show "\<not> willShowSoon (snd (snd (willShow d s)))"
    using w by (simp add: show_ps_def Let_def willNotShow_def willNotHide_def)
  show "length (timeouts (snd (snd (willShow d s)))) = length (timeouts s)"
    using w show_ps_no_timer [of s] by simp
  show "outstandingShow (snd (snd (willShow d s))) \<le> outstandingShow s"
    using w show_ps_no_timer [of s] by simp
next
  assume a: "\<not> opened s \<and> \<not> willShowSoon s \<and> 0 < d"
  then have w: "willShow d s =
      (True, [], s\<lparr>showTimeout := Some (length (timeouts s)),
           timeouts := timeouts s @ [newTimeout ShowCallback d], willShowSoon := True\<rparr>)"
    by (simp add: willShow_def)
  show "fst (willShow d s)" "fst (snd (willShow d s)) = []"
    "timeouts (snd (snd (willShow d s))) = timeouts s @ [newTimeout ShowCallback d]"
    "showTimeout (snd (snd (willShow d s))) = Some (length (timeouts s))"
    "willShowSoon (snd (snd (willShow d s)))"
    using w by simp_all
  show "outstandingShow (snd (snd (willShow d s))) = Suc (outstandingShow s)"
    using w by (simp add: outstandingShow_def newTimeout_def)
  show "\<not> opened (snd (snd (willShow d s)))" using w a by simp
qed

text \<open>C4 at concrete states: \<^verbatim>\<open>willShow(0)\<close> when opened, \<^verbatim>\<open>willShow(0)\<close> and
  \<^verbatim>\<open>willShow(100)\<close> on a new PopupState.\<close>

theorem willShow_contract_witness:
  "willShow 0 (new_PopupState\<lparr>opened := True\<rparr>) = (False, [], new_PopupState\<lparr>opened := True\<rparr>) \<and>
   willShow 0 new_PopupState = (True, [DoShow], new_PopupState\<lparr>opened := True\<rparr>) \<and>
   fst (willShow 100 new_PopupState) \<and>
   timeouts (snd (snd (willShow 100 new_PopupState))) = [newTimeout ShowCallback 100] \<and>
   outstandingShow (snd (snd (willShow 100 new_PopupState))) = 1"
  using willShow_contract [of "new_PopupState\<lparr>opened := True\<rparr>" 0]
    willShow_contract [of new_PopupState 0] willShow_contract [of new_PopupState 100]
  by (simp add: new_PopupState_def willNotShow_def willNotHide_def cancel_def outstandingShow_def newTimeout_def)

text \<open>
  C5. After any sequence of calls on a new PopupState (timer firings included), at
  most one show timeout is outstanding, at every point of the sequence. From any
  state, \<^verbatim>\<open>do-show\<close> is fired at most once more than \<^verbatim>\<open>do-hide\<close> was fired and
  \<^verbatim>\<open>clear()\<close> was called; in particular a sequence of \<^verbatim>\<open>willShow\<close> and
  \<^verbatim>\<open>willNotShow\<close> calls and timer firings, started with no hide timeout outstanding,
  makes \<^verbatim>\<open>opened\<close> true at most once.
\<close>

theorem show_timer_unique_opened_once:
  "outstandingShow (snd (calls_ps (take n cs) new_PopupState)) \<le> 1 \<and>
   count_list (fst (calls_ps cs s)) DoShow
     \<le> 1 + count_list (fst (calls_ps cs s)) DoHide + count_list cs Clear \<and>
   ((\<forall>c \<in> set cs. showCall c) \<and> outstandingHide s = 0 \<longrightarrow>
      count_list (fst (calls_ps cs s)) DoShow \<le> 1)"
proof (intro conjI impI)
  show "outstandingShow (snd (calls_ps (take n cs) new_PopupState)) \<le> 1"
    using show_inv_new by (intro show_inv_outstanding show_inv_calls)
  have b: "count_list (fst (calls_ps cs s)) DoShow + shown s
     \<le> shown (snd (calls_ps cs s)) + count_list (fst (calls_ps cs s)) DoHide
        + count_list cs Clear"
    by (rule balance_calls)
  have le: "shown (snd (calls_ps cs s)) \<le> 1" by (rule shown_le)
  show "count_list (fst (calls_ps cs s)) DoShow
     \<le> 1 + count_list (fst (calls_ps cs s)) DoHide + count_list cs Clear"
    using b le by linarith
  assume a: "(\<forall>c \<in> set cs. showCall c) \<and> outstandingHide s = 0"
  then have "count_list (fst (calls_ps cs s)) DoHide = 0" "count_list cs Clear = 0"
    using noHide_showCalls [of s cs] showCalls_no_Clear [of cs] by (simp_all add: noHidePending_iff)
  then show "count_list (fst (calls_ps cs s)) DoShow \<le> 1"
    using b le by linarith
qed

text \<open>C5 on the sequence willShow(100), willNotShow, willShow(100), the second
  timeout fires, willShow(0).\<close>

theorem show_timer_unique_opened_once_witness:
  "list_all showCall [WillShow 100, WillNotShow, WillShow 100, TimeoutFires 1, WillShow 0] \<and>
   outstandingHide new_PopupState = 0 \<and>
   fst (calls_ps [WillShow 100, WillNotShow, WillShow 100, TimeoutFires 1, WillShow 0] new_PopupState)
     = [DoShow] \<and>
   outstandingShow (snd (calls_ps (take 3 [WillShow 100, WillNotShow, WillShow 100, TimeoutFires 1, WillShow 0]) new_PopupState)) = 1 \<and>
   count_list (fst (calls_ps [WillShow 100, WillNotShow, WillShow 100, TimeoutFires 1, WillShow 0] new_PopupState)) DoShow \<le> 1"
  using show_timer_unique_opened_once
    [of 3 "[WillShow 100, WillNotShow, WillShow 100, TimeoutFires 1, WillShow 0]" new_PopupState]
  by (simp add: new_PopupState_def willShow_def willNotShow_def willNotHide_def cancel_def
      outstandingShow_def outstandingHide_def timeoutFires_def show_ps_def newTimeout_def Let_def)

section \<open>Properties of the binding\<close>

subsection \<open>Unfolding the definitions on concrete bindings\<close>

lemmas collab_defs = log_def setTriggerType_def bindEnter_def bindLeaveBeforeShow_def bindLeave_def
  unbindLeave_def remove_popup_def applyAppendTo_def setBinding_def Popup_from_def
  setPointerEvents_def render_def SharedPopups_find_def SharedPopups_add_def
  SharedPopups_setUser_def SharedPopups_clearUser_def callUnwatchRect_def

lemmas state_defs = new_PopupState_def cancel_def willNotShow_def willNotHide_def show_ps_def
  hide_ps_def clear_ps_def newTimeout_def willShow_def willHide_def timeoutFires_def

lemmas binding_defs = doingHidePopup_end_def doingHidePopup_def doingHidePopup_resume_def
  doHidePopup_def updateRenderedProperty_def updatePopup_def doingShowPopup_def doShowPopup_def
  state_show_def state_hide_def state_willShow_def state_willHide_def state_timeoutFires_def
  showPopup_def hidePopup_def showPopupLater_def hidePopupLater_def getAlignToElement_def
  getAlignerOptions_def alignPopup_def mayGetFocus_def updatePopupProperty_def appendPopup_def
  updatePopup_resume_def doingShowPopup_resume_def onTriggerRectChanged_def update_def
  onWillShow_def onWillHide_def onCancelShow_def onImmediateHide_def onToggleShowHide_def
  afterConnectCallback_def beforeDisconnectCallback_def clearContent_def new_popup_def
  settle_def run_def spread_def DefaultPopupOptions_def truthyKey_def

subsection \<open>Hiding with a leave transition\<close>

lemma state_fire: "state (fire e w) = state w"
  by (cases e)
     (simp_all add: doShowPopup_def doingShowPopup_def updatePopup_def updateRenderedProperty_def
        doHidePopup_def doingHidePopup_def doingHidePopup_end_def collab_defs Let_def
        split: option.splits prod.splits)

lemma state_fold_fire: "state (fold fire evs w) = state w"
  by (induction evs arbitrary: w) (simp_all add: state_fire)

lemma state_hide_opened:
  "opened (state w) \<Longrightarrow>
   state_hide w = doHidePopup (w\<lparr>state := (willNotHide (willNotShow (state w)))\<lparr>opened := False\<rparr>\<rparr>)"
  by (simp add: state_hide_def hide_ps_def Let_def)

lemma state_hide_closed:
  "\<not> opened (state w) \<Longrightarrow> state_hide w = w\<lparr>state := willNotHide (willNotShow (state w))\<rparr>"
  by (simp add: state_hide_def hide_ps_def Let_def)

lemma popups_state_hide: "popups (state_hide w) = popups w"
  by (cases "opened (state w)")
     (simp_all add: state_hide_opened state_hide_closed doHidePopup_def doingHidePopup_def
        doingHidePopup_end_def collab_defs Let_def split: option.splits)

text \<open>
  How the hide sequence treats the popup node. With a leave transition configured,
  \<^verbatim>\<open>hidePopup\<close> starts the transition and removes nothing. When the wait resolves,
  \<^verbatim>\<open>doingHidePopup\<close> tests \<^verbatim>\<open>finish\<close> for the removal and \<^verbatim>\<open>state.opened\<close> only
  after it, for the rest of the sequence.
\<close>

lemma doingHidePopup_removal:
  "(transition (options w) = Some t \<longrightarrow>
      popups (hidePopup w) = popups w \<and>
      (opened (state w) \<longrightarrow>
         trace (hidePopup w) = trace w @ [Leave t, OpenedChange False] \<and>
         tasks (hidePopup w) = tasks w @ [LeaveWait])) \<and>
   (popup w = Some p \<longrightarrow>
      connected (popups (doingHidePopup_resume finish w) p)
        = (connected (popups w p) \<and> \<not> finish)) \<and>
   (opened (state w) \<longrightarrow>
      opened (state (doingHidePopup_resume finish w)) \<and>
      doingHidePopup_resume False w = w \<and>
      preventedHiding (doingHidePopup_resume finish w) = preventedHiding w \<and>
      trace (doingHidePopup_resume finish w)
        = trace w @ (case popup w of Some q \<Rightarrow> if finish then [Remove q] else [] | None \<Rightarrow> []))"
proof (intro conjI impI)
  assume t: "transition (options w) = Some t"
  show "popups (hidePopup w) = popups w"
    by (simp add: hidePopup_def popups_state_hide)
  assume "opened (state w)"
  then show "trace (hidePopup w) = trace w @ [Leave t, OpenedChange False]"
    "tasks (hidePopup w) = tasks w @ [LeaveWait]"
    using t by (simp_all add: hidePopup_def state_hide_opened doHidePopup_def doingHidePopup_def log_def)
next
  assume "popup w = Some p"
  then show "connected (popups (doingHidePopup_resume finish w) p)
        = (connected (popups w p) \<and> \<not> finish)"
    by (simp add: doingHidePopup_resume_def doingHidePopup_end_def collab_defs Let_def)
next
  assume o: "opened (state w)"
  show "opened (state (doingHidePopup_resume finish w))"
    using o by (simp add: doingHidePopup_resume_def collab_defs Let_def split: option.splits)
  show "doingHidePopup_resume False w = w"
    using o by (simp add: doingHidePopup_resume_def Let_def)
  show "preventedHiding (doingHidePopup_resume finish w) = preventedHiding w"
    using o by (simp add: doingHidePopup_resume_def collab_defs Let_def split: option.splits)
  show "trace (doingHidePopup_resume finish w)
        = trace w @ (case popup w of Some q \<Rightarrow> if finish then [Remove q] else [] | None \<Rightarrow> [])"
    using o by (simp add: doingHidePopup_resume_def collab_defs Let_def split: option.splits)
qed

text \<open>
  C1. With a leave transition configured, the popup node is to be removed only after
  the transition completes, and when a show was requested during the transition, so
  that \<^verbatim>\<open>opened\<close> is true again as the wait resolves, the removal is to be aborted and
  the content to stay in the document with \<^verbatim>\<open>opened\<close> true. The code does the first
  and misses the second. The shown popup is hidden with the fade transition
  configured and shown again, the rendering pipeline settles, no enter transition is
  played, and the leave transition resolves as finished with \<^verbatim>\<open>opened\<close> true:
  \<^verbatim>\<open>doingHidePopup\<close> calls \<^verbatim>\<open>popup.remove()\<close> and only then finds \<^verbatim>\<open>opened\<close> true. The
  binding ends opened with its popup node out of the document, nothing is pending,
  and further show requests and a rect change leave it so.
\<close>

theorem reshow_during_leave_removes_popup:
  "transition (options shownWorld) = Some Fade \<and> connected (popups shownWorld 0) \<and>
   midWorld = run [CallHidePopup, CallShowPopup, RenderSettled] shownWorld \<and>
   opened (state midWorld) \<and> tasks midWorld = [LeaveWait] \<and>
   popup midWorld = Some 0 \<and> connected (popups midWorld 0) \<and>
   Enter Fade \<notin> set (trace midWorld) \<and>
   raceWorld = step (LeaveResolved True) midWorld \<and>
   opened (state raceWorld) \<and> \<not> connected (popups raceWorld 0) \<and>
   newEffects midWorld raceWorld = [Remove 0] \<and> tasks raceWorld = [] \<and>
   afterRaceWorld = run [CallShowPopup, CallShowPopupLater, WillShowEvent, RectChanged] raceWorld \<and>
   opened (state afterRaceWorld) \<and> \<not> connected (popups afterRaceWorld 0)"
  by (simp add: afterRaceWorld_def raceWorld_def midWorld_def shownWorld_def collab_defs state_defs
      binding_defs detached_def Let_def newEffects_def)


subsection \<open>keepVisible and the show delay\<close>

lemma state_hidePopupLater:
  "state (hidePopupLater w) = snd (snd (willHide (hideDelay (options w)) (state w)))"
  by (simp add: hidePopupLater_def state_willHide_def Let_def split_def state_fold_fire)

text \<open>
  C2, as stated, fails: on a shown binding with \<^verbatim>\<open>keepVisible: true\<close>,
  \<^verbatim>\<open>hidePopupLater()\<close> delegates to \<^verbatim>\<open>willHide(200)\<close>, which schedules the hide
  timeout; \<^verbatim>\<open>preventedHiding\<close> stays false, and the popup is closed when the timeout
  elapses.
\<close>

theorem hidePopupLater_keepVisible_counterexample:
  "keepVisible (options keptWorld) \<and> opened (state keptWorld) \<and>
   \<not> willHideSoon (state keptWorld) \<and> outstandingHide (state keptWorld) = 0 \<and>
   willHide 200 (state keptWorld) = (True, [], state (hidePopupLater keptWorld)) \<and>
   willHideSoon (state (hidePopupLater keptWorld)) \<and>
   outstandingHide (state (hidePopupLater keptWorld)) = 1 \<and>
   \<not> preventedHiding (hidePopupLater keptWorld) \<and>
   \<not> opened (state (run [CallHidePopupLater, TimeoutElapsed 0] keptWorld))"
  by (simp add: keptWorld_def collab_defs state_defs binding_defs detached_def Let_def
      outstandingHide_def)

text \<open>
  C2, amended. While \<^verbatim>\<open>keepVisible\<close> is set, the will-hide event of the
  PopupTriggerBinder is suppressed: \<^verbatim>\<open>onWillHide\<close> only sets \<^verbatim>\<open>preventedHiding\<close>,
  the PopupState and the trace stay as they are. Without \<^verbatim>\<open>keepVisible\<close> it is
  \<^verbatim>\<open>hidePopupLater()\<close>, and \<^verbatim>\<open>hidePopupLater()\<close> always delegates to \<^verbatim>\<open>willHide\<close>
  with the configured hide delay.
\<close>

theorem onWillHide_keepVisible:
  "(keepVisible (options w) \<longrightarrow>
      onWillHide w = w\<lparr>preventedHiding := True\<rparr> \<and>
      state (onWillHide w) = state w \<and> trace (onWillHide w) = trace w \<and>
      preventedHiding (onWillHide w)) \<and>
   (\<not> keepVisible (options w) \<longrightarrow> onWillHide w = hidePopupLater w) \<and>
   state (hidePopupLater w) = snd (snd (willHide (hideDelay (options w)) (state w))) \<and>
   (opened (state w) \<and> \<not> willHideSoon (state w) \<longrightarrow> fst (willHide (hideDelay (options w)) (state w)))"
  by (simp add: onWillHide_def state_hidePopupLater willHide_def split_def)

text \<open>C2, amended, on the binding shown with \<^verbatim>\<open>keepVisible: true\<close> and on the one
  shown with the default options.\<close>

theorem onWillHide_keepVisible_witness:
  "keepVisible (options keptWorld) \<and> preventedHiding (onWillHide keptWorld) \<and>
   opened (state (onWillHide keptWorld)) \<and> outstandingHide (state (onWillHide keptWorld)) = 0 \<and>
   \<not> keepVisible (options shownWorld) \<and> opened (state shownWorld) \<and>
   \<not> willHideSoon (state shownWorld) \<and>
   willHideSoon (state (onWillHide shownWorld)) \<and>
   outstandingHide (state (onWillHide shownWorld)) = 1"
  using onWillHide_keepVisible [of keptWorld] onWillHide_keepVisible [of shownWorld]
  by (simp add: keptWorld_def shownWorld_def collab_defs state_defs binding_defs detached_def
      Let_def outstandingHide_def)

lemma effectiveShowDelay_code:
  "(let showDelay0 = showDelay (options w);
        showDelay1 = (case truthyKey (options w) of
                          Some k \<Rightarrow> if isCacheOpened w k then 0 else showDelay0
                        | None \<Rightarrow> showDelay0)
    in if boundTrigger w = Click \<or> boundTrigger w = Focus then 0 else showDelay1)
   = effectiveShowDelay w"
  by (simp add: effectiveShowDelay_def sameKeyedPopupOpened_def truthyKey_def Let_def
      split: option.splits)

lemma showPopupLater_eq:
  "showPopupLater w =
     (let (r, w1) = state_willShow (effectiveShowDelay w) w
      in if r then bindLeaveBeforeShow w1 else w1)"
  unfolding showPopupLater_def effectiveShowDelay_code [symmetric] by (simp add: Let_def)

text \<open>
  C3. \<^verbatim>\<open>showPopupLater()\<close> hands \<^verbatim>\<open>willShow\<close> the effective show delay: zero if a
  same-keyed shared popup is open, zero for the trigger types click and focus, the
  configured \<^verbatim>\<open>showDelay\<close> otherwise. When \<^verbatim>\<open>willShow\<close> returns \<^verbatim>\<open>true\<close> the last
  call made is \<^verbatim>\<open>bindLeaveBeforeShow()\<close>; when it returns \<^verbatim>\<open>false\<close> nothing happens.
\<close>

theorem showPopupLater_effective_delay:
  "state (showPopupLater w) = snd (snd (willShow (effectiveShowDelay w) (state w))) \<and>
   (fst (willShow (effectiveShowDelay w) (state w)) \<longrightarrow>
      showPopupLater w = bindLeaveBeforeShow (snd (state_willShow (effectiveShowDelay w) w)) \<and>
      trace (showPopupLater w) \<noteq> [] \<and>
      last (trace (showPopupLater w)) = BindLeaveBeforeShow) \<and>
   (\<not> fst (willShow (effectiveShowDelay w) (state w)) \<longrightarrow> showPopupLater w = w) \<and>
   (sameKeyedPopupOpened w \<longrightarrow> effectiveShowDelay w = 0) \<and>
   (boundTrigger w = Click \<or> boundTrigger w = Focus \<longrightarrow> effectiveShowDelay w = 0) \<and>
   (\<not> sameKeyedPopupOpened w \<and> boundTrigger w \<noteq> Click \<and> boundTrigger w \<noteq> Focus \<longrightarrow>
      effectiveShowDelay w = showDelay (options w))"
proof (intro conjI impI)
  show "state (showPopupLater w) = snd (snd (willShow (effectiveShowDelay w) (state w)))"
    by (simp add: showPopupLater_eq state_willShow_def split_def Let_def bindLeaveBeforeShow_def
        log_def state_fold_fire)
next
  assume r: "fst (willShow (effectiveShowDelay w) (state w))"
  then show eq: "showPopupLater w = bindLeaveBeforeShow (snd (state_willShow (effectiveShowDelay w) w))"
    by (simp add: showPopupLater_eq state_willShow_def split_def Let_def)
  show "trace (showPopupLater w) \<noteq> []" "last (trace (showPopupLater w)) = BindLeaveBeforeShow"
    unfolding eq by (simp_all add: bindLeaveBeforeShow_def log_def)
next
  assume r: "\<not> fst (willShow (effectiveShowDelay w) (state w))"
  then have "opened (state w) \<or> willShowSoon (state w)"
    by (auto simp: willShow_def split_def split: if_splits)
  then have "willShow (effectiveShowDelay w) (state w) = (False, [], state w)"
    by (auto simp: willShow_def)
  then show "showPopupLater w = w"
    by (simp add: showPopupLater_eq state_willShow_def Let_def)
qed (auto simp: effectiveShowDelay_def)

text \<open>C3 on the click binding with \<^verbatim>\<open>showDelay: 100\<close>, on a shown binding, on a new
  hover binding, and on a binding whose key has an open shared popup.\<close>

theorem showPopupLater_effective_delay_witness:
  "boundTrigger clickWorld = Click \<and> showDelay (options clickWorld) = 100 \<and>
   effectiveShowDelay clickWorld = 0 \<and>
   fst (willShow (effectiveShowDelay clickWorld) (state clickWorld)) \<and>
   opened (state (showPopupLater clickWorld)) \<and>
   last (trace (showPopupLater clickWorld)) = BindLeaveBeforeShow \<and>
   \<not> fst (willShow (effectiveShowDelay shownWorld) (state shownWorld)) \<and>
   showPopupLater shownWorld = shownWorld \<and>
   \<not> sameKeyedPopupOpened (new_popup Hover detached) \<and>
   effectiveShowDelay (new_popup Hover detached) = 100 \<and>
   sameKeyedPopupOpened ((new_popup Hover detached)
      \<lparr>options := DefaultPopupOptions\<lparr>key := Some ''menu''\<rparr>, isCacheOpened := (\<lambda>k. k = ''menu'')\<rparr>) \<and>
   effectiveShowDelay ((new_popup Hover detached)
      \<lparr>options := DefaultPopupOptions\<lparr>key := Some ''menu''\<rparr>, isCacheOpened := (\<lambda>k. k = ''menu'')\<rparr>) = 0"
  using showPopupLater_effective_delay [of clickWorld]
    showPopupLater_effective_delay [of shownWorld]
    showPopupLater_effective_delay [of "new_popup Hover detached"]
    showPopupLater_effective_delay [of "(new_popup Hover detached)
      \<lparr>options := DefaultPopupOptions\<lparr>key := Some ''menu''\<rparr>, isCacheOpened := (\<lambda>k. k = ''menu'')\<rparr>"]
  by (simp add: clickWorld_def shownWorld_def collab_defs state_defs binding_defs detached_def
      Let_def sameKeyedPopupOpened_def effectiveShowDelay_def)

subsection \<open>Resuming the show sequence\<close>

lemma updatePopup_resume_closed:
  "\<not> opened (state w) \<Longrightarrow> updatePopup_resume w = (Returned (), w)"
  by (simp add: updatePopup_resume_def)

lemma alignPopup_closed: "\<not> opened (state w) \<Longrightarrow> alignPopup w = (Returned False, w)"
  by (simp add: alignPopup_def)

text \<open>
  C6. When \<^verbatim>\<open>opened\<close> is false as \<^verbatim>\<open>updatePopup\<close> resumes after the wait for the
  rendering pipeline, it returns at once: nothing is thrown and the binding, the DOM,
  the registry and the trace are unchanged, also after the \<^verbatim>\<open>alignPopup()\<close> that
  \<^verbatim>\<open>doingShowPopup\<close> makes next.
\<close>

theorem render_wait_rechecks_opened:
  "\<not> opened (state w) \<longrightarrow>
     updatePopup_resume w = (Returned (), w) \<and>
     doingShowPopup_resume w = (Returned (), w) \<and>
     (tasks w = RenderWait c # ts \<longrightarrow> step RenderSettled w = w\<lparr>tasks := ts\<rparr>)"
proof (intro impI conjI)
  assume o: "\<not> opened (state w)"
  show "updatePopup_resume w = (Returned (), w)" using o by (rule updatePopup_resume_closed)
  show "doingShowPopup_resume w = (Returned (), w)"
    using o by (simp add: doingShowPopup_resume_def updatePopup_resume_closed alignPopup_closed)
  assume t: "tasks w = RenderWait c # ts"
  have o': "\<not> opened (state (w\<lparr>tasks := ts\<rparr>))" using o by simp
  show "step RenderSettled w = w\<lparr>tasks := ts\<rparr>"
    using t updatePopup_resume_closed [OF o'] alignPopup_closed [OF o']
    by (simp add: settle_def doingShowPopup_resume_def)
qed

text \<open>C6 on the binding hidden again before the rendering pipeline settled.\<close>

theorem render_wait_rechecks_opened_witness:
  "\<not> opened (state hiddenEarlyWorld) \<and>
   tasks hiddenEarlyWorld = [RenderWait ByDoingShowPopup, LeaveWait] \<and>
   step RenderSettled hiddenEarlyWorld = hiddenEarlyWorld\<lparr>tasks := [LeaveWait]\<rparr> \<and>
   trace (step RenderSettled hiddenEarlyWorld) = trace hiddenEarlyWorld \<and>
   \<not> connected (popups (step RenderSettled hiddenEarlyWorld) 0) \<and>
   popup (step RenderSettled hiddenEarlyWorld) = None"
proof -
  have f: "\<not> opened (state hiddenEarlyWorld)"
    "tasks hiddenEarlyWorld = [RenderWait ByDoingShowPopup, LeaveWait]"
    "\<not> connected (popups hiddenEarlyWorld 0)" "popup hiddenEarlyWorld = None"
    by (simp_all add: hiddenEarlyWorld_def collab_defs state_defs binding_defs detached_def Let_def)
  show ?thesis
    using f render_wait_rechecks_opened [of hiddenEarlyWorld ByDoingShowPopup "[LeaveWait]"]
    by simp
qed

lemma doShowPopup_popups:
  "popups (doShowPopup w) = popups w \<and> cache (doShowPopup w) = cache w \<and>
   users (doShowPopup w) = users w"
  by (simp add: doShowPopup_def doingShowPopup_def updatePopup_def updateRenderedProperty_def
      collab_defs Let_def split: option.splits prod.splits)

lemma doShowPopup_trace:
  "set (newEffects w (doShowPopup w)) \<subseteq> {Render (renderer w), UntilComplete, OpenedChange True}"
  by (auto simp: newEffects_def doShowPopup_def doingShowPopup_def updatePopup_def
      updateRenderedProperty_def collab_defs Let_def split: option.splits prod.splits)

text \<open>
  C7. When \<^verbatim>\<open>updatePopup\<close> resumes with \<^verbatim>\<open>opened\<close> true and the first element child of
  the render result is not a Popup, it throws and everything is as it was before the
  resumption; \<^verbatim>\<open>doingShowPopup\<close> is rejected with the same error and does not align.
  The part of the show sequence before the wait touches neither the DOM nor the
  registry: it only renders, waits and fires \<^verbatim>\<open>opened-change\<close>.
\<close>

theorem missing_popup_root_throws:
  "(opened (state w) \<and> rendered w = Some r \<and> Popup_from r w = None \<longrightarrow>
      updatePopup_resume w = (Thrown ConfigError, w) \<and>
      doingShowPopup_resume w = (Thrown ConfigError, w)) \<and>
   (opened (state w) \<and> rendered w = Some r \<and> Popup_from r w = None \<and>
    tasks w = RenderWait c # ts \<longrightarrow>
      step RenderSettled w = log (Uncaught ConfigError) (w\<lparr>tasks := ts\<rparr>)) \<and>
   popups (doShowPopup w) = popups w \<and> cache (doShowPopup w) = cache w \<and>
   users (doShowPopup w) = users w \<and>
   set (newEffects w (doShowPopup w)) \<subseteq> {Render (renderer w), UntilComplete, OpenedChange True}"
proof (intro conjI impI)
  assume a: "opened (state w) \<and> rendered w = Some r \<and> Popup_from r w = None"
  then show u: "updatePopup_resume w = (Thrown ConfigError, w)"
    by (simp add: updatePopup_resume_def)
  show "doingShowPopup_resume w = (Thrown ConfigError, w)"
    by (simp add: doingShowPopup_resume_def u)
next
  assume a: "opened (state w) \<and> rendered w = Some r \<and> Popup_from r w = None \<and>
    tasks w = RenderWait c # ts"
  have "Popup_from r (w\<lparr>tasks := ts\<rparr>) = Popup_from r w"
    by (simp add: Popup_from_def)
  then have "Popup_from r (w\<lparr>tasks := ts\<rparr>) = None"
    using a by simp
  then have "updatePopup_resume (w\<lparr>tasks := ts\<rparr>) = (Thrown ConfigError, w\<lparr>tasks := ts\<rparr>)"
    using a by (simp add: updatePopup_resume_def)
  then show "step RenderSettled w = log (Uncaught ConfigError) (w\<lparr>tasks := ts\<rparr>)"
    using a by (simp add: settle_def doingShowPopup_resume_def)
qed (simp_all add: doShowPopup_popups doShowPopup_trace)

text \<open>C7 on the binding whose renderer puts no Popup at the root.\<close>

theorem missing_popup_root_throws_witness:
  "opened (state noRootWorld) \<and> rendered noRootWorld = Some 0 \<and>
   Popup_from 0 noRootWorld = None \<and> tasks noRootWorld = [RenderWait ByDoingShowPopup] \<and>
   step RenderSettled noRootWorld = log (Uncaught ConfigError) (noRootWorld\<lparr>tasks := []\<rparr>) \<and>
   popups (step RenderSettled noRootWorld) = detached \<and>
   trace (step RenderSettled noRootWorld) =
     [SetTriggerType Hover, BindEnter, Render (Some (Renderer None)), UntilComplete,
      OpenedChange True, Uncaught ConfigError]"
proof -
  have f: "opened (state noRootWorld)" "rendered noRootWorld = Some 0"
    "Popup_from 0 noRootWorld = None" "tasks noRootWorld = [RenderWait ByDoingShowPopup]"
    "popups noRootWorld = detached"
    "trace noRootWorld = [SetTriggerType Hover, BindEnter, Render (Some (Renderer None)),
       UntilComplete, OpenedChange True]"
    by (simp_all add: noRootWorld_def collab_defs state_defs binding_defs Let_def)
  show ?thesis
    using f missing_popup_root_throws [of noRootWorld 0 ByDoingShowPopup "[]"]
    by (simp add: log_def)
qed

subsection \<open>Realignment\<close>

lemma hidePopup_opened:
  "opened (state w) \<Longrightarrow>
   \<not> opened (state (hidePopup w)) \<and> trace (hidePopup w) = trace w @ hideEffects w"
  by (simp add: hidePopup_def state_hide_opened doHidePopup_def doingHidePopup_def
      doingHidePopup_end_def collab_defs hideEffects_def Let_def split: option.splits)

lemma alignPopup_facts:
  assumes "opened (state w)" and "popup w = Some p"
  shows "fst (alignPopup w) = Returned (alignResult w)"
    and "opened (state (snd (alignPopup w))) = alignResult w"
    and "take 1 (newEffects w (snd (alignPopup w))) = [WillAlign]"
    and "Align \<in> set (newEffects w (snd (alignPopup w)))"
    and "\<not> alignResult w \<Longrightarrow> OpenedChange False \<in> set (newEffects w (snd (alignPopup w)))"
proof -
  have h: "\<not> opened (state (hidePopup x))" "trace (hidePopup x) = trace x @ hideEffects x"
    if "opened (state x)" for x
    using hidePopup_opened [OF that] by simp_all
  show "fst (alignPopup w) = Returned (alignResult w)"
    using assms
    by (simp add: alignPopup_def Let_def getAlignerOptions_def log_def split: option.splits)
  show "opened (state (snd (alignPopup w))) = alignResult w"
    using assms
    by (simp add: alignPopup_def Let_def getAlignerOptions_def log_def h split: option.splits)
  show "take 1 (newEffects w (snd (alignPopup w))) = [WillAlign]"
    using assms
    by (simp add: alignPopup_def Let_def getAlignerOptions_def log_def h newEffects_def
        split: option.splits)
  show "Align \<in> set (newEffects w (snd (alignPopup w)))"
    using assms
    by (simp add: alignPopup_def Let_def getAlignerOptions_def log_def h newEffects_def
        split: option.splits)
  show "OpenedChange False \<in> set (newEffects w (snd (alignPopup w)))" if "\<not> alignResult w"
    using assms that
    by (simp add: alignPopup_def Let_def getAlignerOptions_def log_def h newEffects_def
        hideEffects_def split: option.splits)
qed

text \<open>
  What a rect change calls. For a shown popup, \<^verbatim>\<open>alignPopup()\<close> returns what the
  aligner answers and calls \<^verbatim>\<open>hidePopup()\<close> when the alignment failed;
  \<^verbatim>\<open>onTriggerRectChanged\<close> calls \<^verbatim>\<open>alignPopup()\<close> when the trigger rect intersects the
  viewport and \<^verbatim>\<open>hidePopup()\<close> otherwise, with no alignment.
\<close>

lemma onTriggerRectChanged_dispatch:
  "opened (state w) \<and> popup w = Some p \<longrightarrow>
     fst (alignPopup w) = Returned (alignResult w) \<and>
     opened (state (snd (alignPopup w))) = alignResult w \<and>
     (\<not> alignResult w \<longrightarrow> OpenedChange False \<in> set (newEffects w (snd (alignPopup w)))) \<and>
     (triggerInViewport w \<longrightarrow>
        onTriggerRectChanged w = (Returned (), (snd (alignPopup w))\<lparr>unwatchRect := Noop\<rparr>) \<and>
        take 1 (newEffects w (snd (onTriggerRectChanged w))) = [WillAlign] \<and>
        Align \<in> set (newEffects w (snd (onTriggerRectChanged w))) \<and>
        opened (state (snd (onTriggerRectChanged w))) = alignResult w) \<and>
     (\<not> triggerInViewport w \<longrightarrow>
        onTriggerRectChanged w = (Returned (), (hidePopup w)\<lparr>unwatchRect := Noop\<rparr>) \<and>
        newEffects w (snd (onTriggerRectChanged w)) = hideEffects w \<and>
        Align \<notin> set (hideEffects w) \<and> WillAlign \<notin> set (hideEffects w) \<and>
        \<not> opened (state (snd (onTriggerRectChanged w))))"
proof (intro impI)
  assume a: "opened (state w) \<and> popup w = Some p"
  then have o: "opened (state w)" and p: "popup w = Some p" by simp_all
  note f = alignPopup_facts [OF o p]
  have in_view: "onTriggerRectChanged w = (Returned (), (snd (alignPopup w))\<lparr>unwatchRect := Noop\<rparr>)"
    if "triggerInViewport w"
    using that f(1) by (cases "alignPopup w") (simp add: onTriggerRectChanged_def)
  have out_view: "onTriggerRectChanged w = (Returned (), (hidePopup w)\<lparr>unwatchRect := Noop\<rparr>)"
    if "\<not> triggerInViewport w"
    using that by (simp add: onTriggerRectChanged_def)
  have ne: "newEffects w (x\<lparr>unwatchRect := Noop\<rparr>) = newEffects w x" for x
    by (simp add: newEffects_def)
  show "fst (alignPopup w) = Returned (alignResult w) \<and>
     opened (state (snd (alignPopup w))) = alignResult w \<and>
     (\<not> alignResult w \<longrightarrow> OpenedChange False \<in> set (newEffects w (snd (alignPopup w)))) \<and>
     (triggerInViewport w \<longrightarrow>
        onTriggerRectChanged w = (Returned (), (snd (alignPopup w))\<lparr>unwatchRect := Noop\<rparr>) \<and>
        take 1 (newEffects w (snd (onTriggerRectChanged w))) = [WillAlign] \<and>
        Align \<in> set (newEffects w (snd (onTriggerRectChanged w))) \<and>
        opened (state (snd (onTriggerRectChanged w))) = alignResult w) \<and>
     (\<not> triggerInViewport w \<longrightarrow>
        onTriggerRectChanged w = (Returned (), (hidePopup w)\<lparr>unwatchRect := Noop\<rparr>) \<and>
        newEffects w (snd (onTriggerRectChanged w)) = hideEffects w \<and>
        Align \<notin> set (hideEffects w) \<and> WillAlign \<notin> set (hideEffects w) \<and>
        \<not> opened (state (snd (onTriggerRectChanged w))))"
  proof (intro conjI impI)
    show "fst (alignPopup w) = Returned (alignResult w)" by (rule f(1))
    show "opened (state (snd (alignPopup w))) = alignResult w" by (rule f(2))
    show "OpenedChange False \<in> set (newEffects w (snd (alignPopup w)))" if "\<not> alignResult w"
      using that by (rule f(5))
  next
    assume v: "triggerInViewport w"
    show "onTriggerRectChanged w = (Returned (), (snd (alignPopup w))\<lparr>unwatchRect := Noop\<rparr>)"
      using v by (rule in_view)
    show "take 1 (newEffects w (snd (onTriggerRectChanged w))) = [WillAlign]"
      using in_view [OF v] f(3) by (simp add: ne)
    show "Align \<in> set (newEffects w (snd (onTriggerRectChanged w)))"
      using in_view [OF v] f(4) by (simp add: ne)
    show "opened (state (snd (onTriggerRectChanged w))) = alignResult w"
      using in_view [OF v] f(2) by simp
  next
    assume v: "\<not> triggerInViewport w"
    show "onTriggerRectChanged w = (Returned (), (hidePopup w)\<lparr>unwatchRect := Noop\<rparr>)"
      using v by (rule out_view)
    show "newEffects w (snd (onTriggerRectChanged w)) = hideEffects w"
      using out_view [OF v] hidePopup_opened [OF o] by (simp add: ne) (simp add: newEffects_def)
    show "Align \<notin> set (hideEffects w)" "WillAlign \<notin> set (hideEffects w)"
      by (simp_all add: hideEffects_def split: option.splits)
    show "\<not> opened (state (snd (onTriggerRectChanged w)))"
      using out_view [OF v] hidePopup_opened [OF o] by simp
  qed
qed

text \<open>Without a transition the hide sequence ends at once, and it neither removes a
  popup node nor leaves anything pending.\<close>

lemma hidePopup_without_transition:
  "transition (options w) = None \<Longrightarrow>
   popups (hidePopup w) = popups w \<and> tasks (hidePopup w) = tasks w"
  by (cases "opened (state w)")
     (simp_all add: hidePopup_def state_hide_opened state_hide_closed doHidePopup_def
        doingHidePopup_def doingHidePopup_end_def collab_defs Let_def)

text \<open>
  C8. When the trigger rect changes while the popup is shown, the popup is to be
  realigned if the rect still intersects the viewport and hidden otherwise, and a
  failed alignment is to hide the popup rather than leave it visible unanchored. The
  code calls \<^verbatim>\<open>hidePopup()\<close> in both cases, but \<^verbatim>\<open>doingHidePopup\<close> removes the popup
  node only inside its transition branch. On a binding shown with
  \<^verbatim>\<open>transition: undefined\<close>, a rect change with a failing alignment, and one with the
  trigger out of the viewport, end with \<^verbatim>\<open>opened\<close> false, the leave listeners unbound
  and \<^verbatim>\<open>opened-change\<close> fired, while the popup node is still in the document and
  neither a suspended call nor a timeout is left to remove it.
\<close>

theorem failed_alignment_leaves_popup_in_document:
  "transition (options plainWorld) = None \<and> opened (state plainWorld) \<and>
   popup plainWorld = Some 0 \<and> connected (popups plainWorld 0) \<and>
   unanchoredWorld = step RectChanged (plainWorld\<lparr>alignResult := False\<rparr>) \<and>
   newEffects plainWorld unanchoredWorld
     = [WillAlign, Align, UnbindLeave, CallUnwatch UnwatchFn, OpenedChange False] \<and>
   \<not> opened (state unanchoredWorld) \<and> connected (popups unanchoredWorld 0) \<and>
   tasks unanchoredWorld = [] \<and> timeouts (state unanchoredWorld) = [] \<and>
   outOfViewWorld = step RectChanged (plainWorld\<lparr>triggerInViewport := False\<rparr>) \<and>
   newEffects plainWorld outOfViewWorld
     = [UnbindLeave, CallUnwatch UnwatchFn, OpenedChange False] \<and>
   \<not> opened (state outOfViewWorld) \<and> connected (popups outOfViewWorld 0) \<and>
   tasks outOfViewWorld = [] \<and> timeouts (state outOfViewWorld) = []"
  by (simp add: unanchoredWorld_def outOfViewWorld_def plainWorld_def collab_defs state_defs
      binding_defs detached_def Let_def newEffects_def)


subsection \<open>update and the aligner options\<close>

lemma fire_keeps:
  "options (fire e w) = options w \<and> renderer (fire e w) = renderer w"
  by (cases e)
     (simp_all add: doShowPopup_def doingShowPopup_def updatePopup_def updateRenderedProperty_def
        doHidePopup_def doingHidePopup_def doingHidePopup_end_def collab_defs Let_def
        split: option.splits prod.splits)

lemma fold_fire_keeps:
  "options (fold fire evs w) = options w \<and> renderer (fold fire evs w) = renderer w"
  by (induction evs arbitrary: w) (simp_all add: fire_keeps)

lemma hidePopupLater_keeps:
  "options (hidePopupLater w) = options w \<and> renderer (hidePopupLater w) = renderer w"
  by (simp add: hidePopupLater_def state_willHide_def split_def Let_def fold_fire_keeps)

lemma updatePopup_keeps:
  "options (updatePopup c w) = options w \<and> renderer (updatePopup c w) = renderer w \<and>
   state (updatePopup c w) = state w \<and> preventedHiding (updatePopup c w) = preventedHiding w"
  by (simp add: updatePopup_def updateRenderedProperty_def collab_defs Let_def
      split: option.splits prod.splits)

lemma updatePopup_task: "tasks (updatePopup c w) = tasks w @ [RenderWait c]"
  by (simp add: updatePopup_def updateRenderedProperty_def collab_defs Let_def
      split: option.splits prod.splits)

lemma update_eq:
  "update f props w =
     (if preventedHiding w \<and> \<not> keepVisible (spread DefaultPopupOptions props)
      then hidePopupLater
             (if opened (state w)
              then updatePopup ByUpdate
                     (w\<lparr>renderer := Some f, options := spread DefaultPopupOptions props\<rparr>)
              else w\<lparr>renderer := Some f, options := spread DefaultPopupOptions props\<rparr>)
      else (if opened (state w)
            then updatePopup ByUpdate
                   (w\<lparr>renderer := Some f, options := spread DefaultPopupOptions props\<rparr>)
            else w\<lparr>renderer := Some f, options := spread DefaultPopupOptions props\<rparr>))"
  by (simp add: update_def Let_def updatePopup_keeps)

text \<open>
  C9. \<^verbatim>\<open>update(renderer, options)\<close> stores the renderer and the given options spread
  over the defaults; when the popup is opened it calls \<^verbatim>\<open>updatePopup()\<close>; and when a
  hide was deferred and the new options have \<^verbatim>\<open>keepVisible\<close> false it calls
  \<^verbatim>\<open>hidePopupLater()\<close>, so that the PopupState is the one \<^verbatim>\<open>willHide\<close> gives for the new
  hide delay. Otherwise the PopupState is untouched.
\<close>

theorem update_merges_and_issues_deferred_hide:
  "options (update f props w) = spread DefaultPopupOptions props \<and>
   renderer (update f props w) = Some f \<and>
   spread DefaultPopupOptions [] = DefaultPopupOptions \<and>
   spread DefaultPopupOptions (props @ [x]) = assign x (spread DefaultPopupOptions props) \<and>
   update f props w =
     (if preventedHiding w \<and> \<not> keepVisible (spread DefaultPopupOptions props)
      then hidePopupLater
             (if opened (state w)
              then updatePopup ByUpdate
                     (w\<lparr>renderer := Some f, options := spread DefaultPopupOptions props\<rparr>)
              else w\<lparr>renderer := Some f, options := spread DefaultPopupOptions props\<rparr>)
      else (if opened (state w)
            then updatePopup ByUpdate
                   (w\<lparr>renderer := Some f, options := spread DefaultPopupOptions props\<rparr>)
            else w\<lparr>renderer := Some f, options := spread DefaultPopupOptions props\<rparr>)) \<and>
   (opened (state w) \<longrightarrow> RenderWait ByUpdate \<in> set (tasks (update f props w))) \<and>
   (preventedHiding w \<and> \<not> keepVisible (spread DefaultPopupOptions props) \<longrightarrow>
      state (update f props w)
        = snd (snd (willHide (hideDelay (spread DefaultPopupOptions props)) (state w)))) \<and>
   (\<not> (preventedHiding w \<and> \<not> keepVisible (spread DefaultPopupOptions props)) \<longrightarrow>
      state (update f props w) = state w)"
proof (intro conjI impI)
  show "options (update f props w) = spread DefaultPopupOptions props"
    by (simp add: update_eq hidePopupLater_keeps updatePopup_keeps)
  show "renderer (update f props w) = Some f"
    by (simp add: update_eq hidePopupLater_keeps updatePopup_keeps)
  show "spread DefaultPopupOptions [] = DefaultPopupOptions"
    by (simp add: spread_def)
  show "spread DefaultPopupOptions (props @ [x]) = assign x (spread DefaultPopupOptions props)"
    by (simp add: spread_def)
  show "update f props w =
     (if preventedHiding w \<and> \<not> keepVisible (spread DefaultPopupOptions props)
      then hidePopupLater
             (if opened (state w)
              then updatePopup ByUpdate
                     (w\<lparr>renderer := Some f, options := spread DefaultPopupOptions props\<rparr>)
              else w\<lparr>renderer := Some f, options := spread DefaultPopupOptions props\<rparr>)
      else (if opened (state w)
            then updatePopup ByUpdate
                   (w\<lparr>renderer := Some f, options := spread DefaultPopupOptions props\<rparr>)
            else w\<lparr>renderer := Some f, options := spread DefaultPopupOptions props\<rparr>))"
    by (rule update_eq)
next
  assume o: "opened (state w)"
  have "RenderWait ByUpdate \<in> set (tasks (hidePopupLater x))" if "RenderWait ByUpdate \<in> set (tasks x)" for x
  proof -
    have t: "RenderWait ByUpdate \<in> set (tasks (fire e y))" if "RenderWait ByUpdate \<in> set (tasks y)" for e y
      using that
      by (cases e)
         (simp_all add: doShowPopup_def doingShowPopup_def updatePopup_def
            updateRenderedProperty_def doHidePopup_def doingHidePopup_def doingHidePopup_end_def
            collab_defs Let_def split: option.splits prod.splits)
    have "RenderWait ByUpdate \<in> set (tasks (fold fire evs y))" if "RenderWait ByUpdate \<in> set (tasks y)" for evs y
      using that by (induction evs arbitrary: y) (simp_all add: t)
    then show ?thesis using that
      by (simp add: hidePopupLater_def state_willHide_def split_def Let_def)
  qed
  then show "RenderWait ByUpdate \<in> set (tasks (update f props w))"
    using o by (simp add: update_eq updatePopup_task)
next
  assume a: "preventedHiding w \<and> \<not> keepVisible (spread DefaultPopupOptions props)"
  then show "state (update f props w)
        = snd (snd (willHide (hideDelay (spread DefaultPopupOptions props)) (state w)))"
    by (simp add: update_eq state_hidePopupLater updatePopup_keeps)
next
  assume a: "\<not> (preventedHiding w \<and> \<not> keepVisible (spread DefaultPopupOptions props))"
  then show "state (update f props w) = state w"
    by (auto simp add: update_eq updatePopup_keeps)
qed

text \<open>C9 on the binding with a deferred hide: \<^verbatim>\<open>update\<close> with
  \<^verbatim>\<open>keepVisible: false\<close>, and with \<^verbatim>\<open>keepVisible: true\<close>.\<close>

theorem update_merges_and_issues_deferred_hide_witness:
  "opened (state deferredWorld) \<and> preventedHiding deferredWorld \<and>
   keepVisible (options deferredWorld) \<and> outstandingHide (state deferredWorld) = 0 \<and>
   \<not> keepVisible (spread DefaultPopupOptions [KeepVisible False]) \<and>
   hideDelay (spread DefaultPopupOptions [KeepVisible False]) = 200 \<and>
   RenderWait ByUpdate \<in> set (tasks (update (Renderer (Some 0)) [KeepVisible False] deferredWorld)) \<and>
   willHideSoon (state (update (Renderer (Some 0)) [KeepVisible False] deferredWorld)) \<and>
   outstandingHide (state (update (Renderer (Some 0)) [KeepVisible False] deferredWorld)) = 1 \<and>
   state (update (Renderer (Some 0)) [KeepVisible True] deferredWorld) = state deferredWorld"
  using update_merges_and_issues_deferred_hide
      [of "Renderer (Some 0)" "[KeepVisible False]" deferredWorld "KeepVisible False"]
    update_merges_and_issues_deferred_hide
      [of "Renderer (Some 0)" "[KeepVisible True]" deferredWorld "KeepVisible False"]
  by (simp add: deferredWorld_def keptWorld_def collab_defs state_defs binding_defs detached_def
      Let_def outstandingHide_def)

text \<open>
  C10. The options \<^verbatim>\<open>getAlignerOptions()\<close> builds have \<^verbatim>\<open>canSwapPosition\<close> equal to
  the configured \<^verbatim>\<open>stickToEdges\<close>; the configured \<^verbatim>\<open>canSwapPosition\<close> has no
  influence on them, and the Aligner that \<^verbatim>\<open>alignPopup()\<close> creates carries them.
\<close>

theorem aligner_canSwapPosition_is_stickToEdges:
  "popup w = Some p \<longrightarrow>
     getAlignerOptions w =
       Returned \<lparr>gap = gap (options w), stickToEdges = stickToEdges (options w),
                 canSwapPosition = stickToEdges (options w),
                 canShrinkOnY = canShrinkOnY (options w),
                 fixTriangle = fixTriangle (options w),
                 triangle = triangleEl (popups w p)\<rparr> \<and>
     getAlignerOptions (w\<lparr>options := (options w)\<lparr>canSwapPosition := b\<rparr>\<rparr>) = getAlignerOptions w \<and>
     (opened (state w) \<and> aligner w = None \<longrightarrow>
        (case aligner (snd (alignPopup w)) of
           None \<Rightarrow> False
         | Some a \<Rightarrow> canSwapPosition (alignerOptions a) = stickToEdges (options w)))"
proof (intro impI conjI)
  assume p: "popup w = Some p"
  show "getAlignerOptions w =
       Returned \<lparr>gap = gap (options w), stickToEdges = stickToEdges (options w),
                 canSwapPosition = stickToEdges (options w),
                 canShrinkOnY = canShrinkOnY (options w),
                 fixTriangle = fixTriangle (options w),
                 triangle = triangleEl (popups w p)\<rparr>"
    using p by (simp add: getAlignerOptions_def)
  show "getAlignerOptions (w\<lparr>options := (options w)\<lparr>canSwapPosition := b\<rparr>\<rparr>) = getAlignerOptions w"
    using p by (simp add: getAlignerOptions_def)
  assume a: "opened (state w) \<and> aligner w = None"
  have k: "aligner (hidePopup x) = aligner x" for x
  proof -
    have "aligner (fire e y) = aligner y" for e y
      by (cases e)
         (simp_all add: doShowPopup_def doingShowPopup_def updatePopup_def
            updateRenderedProperty_def doHidePopup_def doingHidePopup_def doingHidePopup_end_def
            collab_defs Let_def split: option.splits prod.splits)
    then have "aligner (fold fire evs y) = aligner y" for evs y
      by (induction evs arbitrary: y) simp_all
    then show ?thesis by (simp add: hidePopup_def state_hide_def split_def Let_def)
  qed
  show "case aligner (snd (alignPopup w)) of
           None \<Rightarrow> False
         | Some a \<Rightarrow> canSwapPosition (alignerOptions a) = stickToEdges (options w)"
    using p a by (simp add: alignPopup_def Let_def getAlignerOptions_def log_def k)
qed

text \<open>C10 on the binding shown with \<^verbatim>\<open>stickToEdges: false\<close> and
  \<^verbatim>\<open>canSwapPosition: true\<close>.\<close>

theorem aligner_canSwapPosition_is_stickToEdges_witness:
  "popup swapWorld = Some 0 \<and> canSwapPosition (options swapWorld) \<and>
   \<not> stickToEdges (options swapWorld) \<and>
   getAlignerOptions swapWorld =
     Returned \<lparr>gap = 4, stickToEdges = False, canSwapPosition = False, canShrinkOnY = True,
               fixTriangle = False, triangle = None\<rparr> \<and>
   (case aligner swapWorld of None \<Rightarrow> False | Some a \<Rightarrow> \<not> canSwapPosition (alignerOptions a)) \<and>
   opened (state swapWorld) \<and>
   (case aligner (snd (alignPopup (swapWorld\<lparr>aligner := None\<rparr>))) of
      None \<Rightarrow> False
    | Some a \<Rightarrow> \<not> canSwapPosition (alignerOptions a))"
  using aligner_canSwapPosition_is_stickToEdges [of swapWorld 0 True]
    aligner_canSwapPosition_is_stickToEdges [of "swapWorld\<lparr>aligner := None\<rparr>" 0 True]
  by (simp add: swapWorld_def collab_defs state_defs binding_defs detached_def Let_def)

end
